theory Spec2Isabelle
  imports Main "HOL-Library.Word"
begin

section \<open>JavaScript strings\<close>

text \<open>
  A JavaScript string is a sequence of UTF-16 code units; \<open>length\<close>, \<open>slice\<close>,
  \<open>===\<close> and \<open>includes\<close> all work on code units. The literals of \<^verbatim>\<open>index.js\<close> are
  ASCII, apart from the three icons, which are one code unit each.
\<close>

type_synonym jstring = "16 word list"

definition lit :: "string \<Rightarrow> jstring" where
  "lit s = map of_char s"

text \<open>
  \<^verbatim>\<open>String.prototype.toLowerCase\<close>. The program only ever compares a lowered string with
  ASCII literals (\<open>===\<close> and \<open>includes\<close>). The code units whose lower case holds an
  ASCII code unit are \<open>A\<close>..\<open>Z\<close>, the Kelvin sign U+212A (lowered to \<open>k\<close>) and U+0130
  (lowered to \<open>i\<close> followed by U+0307). Every other capital is lowered by JavaScript to
  code units outside ASCII; such code units are left in place here.
\<close>

definition lower_unit :: "16 word \<Rightarrow> jstring" where
  "lower_unit c =
     (if 0x41 \<le> c \<and> c \<le> 0x5A then [c + 0x20]
      else if c = 0x212A then [0x6B]
      else if c = 0x130 then [0x69, 0x307]
      else [c])"

definition toLowerCase :: "jstring \<Rightarrow> jstring" where
  "toLowerCase s = concat (map lower_unit s)"

text \<open>
  \<^verbatim>\<open>String.prototype.toUpperCase\<close>, which the program applies to the names of its inputs
  and to normalized risk levels only, all of them ASCII: \<open>a\<close>..\<open>z\<close> are raised.
\<close>

definition upper_unit :: "16 word \<Rightarrow> 16 word" where
  "upper_unit c = (if 0x61 \<le> c \<and> c \<le> 0x7A then c - 0x20 else c)"

definition toUpperCase :: "jstring \<Rightarrow> jstring" where
  "toUpperCase s = map upper_unit s"

text \<open>\<^verbatim>\<open>s.includes(t)\<close>: \<open>t\<close> occurs in \<open>s\<close> as a contiguous run of code units.\<close>

fun str_includes :: "jstring \<Rightarrow> jstring \<Rightarrow> bool" where
  "str_includes [] t = (t = [])"
| "str_includes (c # cs) t = (take (length t) (c # cs) = t \<or> str_includes cs t)"

text \<open>
  \<^verbatim>\<open>s.trim()\<close> removes white space and line terminators from both ends: TAB, LF, VT,
  FF, CR, the space separators of Unicode, LS, PS and the byte order mark.
\<close>

definition isWhiteSpace :: "16 word \<Rightarrow> bool" where
  "isWhiteSpace c =
     (c \<in> {0x9, 0xA, 0xB, 0xC, 0xD, 0x20, 0xA0, 0x1680, 0x2028, 0x2029, 0x202F, 0x205F,
            0x3000, 0xFEFF}
      \<or> (0x2000 \<le> c \<and> c \<le> 0x200A))"

definition trim :: "jstring \<Rightarrow> jstring" where
  "trim s = rev (dropWhile isWhiteSpace (rev (dropWhile isWhiteSpace s)))"

text \<open>\<^verbatim>\<open>s.split(",")\<close>: the fields between the commas; never the empty list.\<close>

fun split_comma :: "jstring \<Rightarrow> jstring list" where
  "split_comma [] = [[]]"
| "split_comma (c # cs) =
     (if c = 0x2C then [] # split_comma cs
      else (case split_comma cs of
              [] \<Rightarrow> [[c]]
            | f # fs \<Rightarrow> (c # f) # fs))"

text \<open>\<^verbatim>\<open>xs.join(",")\<close> on strings.\<close>

fun join_comma :: "jstring list \<Rightarrow> jstring" where
  "join_comma [] = []"
| "join_comma [f] = f"
| "join_comma (f # g # fs) = f @ 0x2C # join_comma (g # fs)"

text \<open>The decimal digits of a non-negative integer, as \<^verbatim>\<open>String(n)\<close> writes them.\<close>

fun digits :: "nat \<Rightarrow> jstring" where
  "digits n =
     (if n < 10 then [of_nat (48 + n)]
      else digits (n div 10) @ [of_nat (48 + n mod 10)])"

declare digits.simps [simp del]

definition show_int :: "int \<Rightarrow> jstring" where
  "show_int i = (if i < 0 then 0x2D # digits (nat (- i)) else digits (nat i))"

section \<open>Values of the response\<close>

text \<open>
  What \<^verbatim>\<open>JSON.parse\<close> returns. An object is the list of its own properties in the
  order \<^verbatim>\<open>Object.entries\<close> enumerates them. Numbers are the integers, written in
  decimal by \<^verbatim>\<open>String\<close>; fractions and exponents are not modelled. A value that may
  be \<^verbatim>\<open>undefined\<close> has type \<open>json option\<close>.
\<close>

datatype json =
    JNull
  | JBool bool
  | JNum int
  | JStr jstring
  | JArr "json list"
  | JObj "(jstring \<times> json) list"

text \<open>
  What the program throws: \<^verbatim>\<open>new Error(message)\<close>, or a \<^verbatim>\<open>TypeError\<close> raised by the
  language.
\<close>

datatype exn = Error jstring | TypeError

fun truthy :: "json \<Rightarrow> bool" where
  "truthy JNull = False"
| "truthy (JBool b) = b"
| "truthy (JNum n) = (n \<noteq> 0)"
| "truthy (JStr s) = (s \<noteq> [])"
| "truthy (JArr xs) = True"
| "truthy (JObj kvs) = True"

text \<open>Truthiness of a value that may be undefined, and \<^verbatim>\<open>a || d\<close>.\<close>

definition is_truthy :: "json option \<Rightarrow> bool" where
  "is_truthy a = (case a of None \<Rightarrow> False | Some v \<Rightarrow> truthy v)"

definition or_default :: "json option \<Rightarrow> json \<Rightarrow> json" where
  "or_default a d = (case a of None \<Rightarrow> d | Some v \<Rightarrow> if truthy v then v else d)"

text \<open>
  \<^verbatim>\<open>v?.k\<close> for the property names the program reads (\<open>risk\<close>, \<open>pairs\<close>, \<open>issues\<close>,
  \<open>severity\<close>, \<open>message\<close>, \<open>title\<close>): no prototype has a property of one of these
  names, so only an object's own property is found, and \<open>null\<close> gives undefined.
\<close>

fun member :: "json \<Rightarrow> jstring \<Rightarrow> json option" where
  "member (JObj kvs) k = map_of kvs k"
| "member v k = None"

text \<open>\<^verbatim>\<open>v && typeof v === "object"\<close>: arrays and objects, not \<open>null\<close>.\<close>

fun is_object :: "json \<Rightarrow> bool" where
  "is_object (JArr xs) = True"
| "is_object (JObj kvs) = True"
| "is_object v = False"

text \<open>
  \<^verbatim>\<open>String(v)\<close>, also what a template literal does to \<open>v\<close>. An array is joined with
  commas, \<open>null\<close> elements giving the empty string. An object gives
  \<^verbatim>\<open>[object Object]\<close> through \<^verbatim>\<open>Object.prototype.toString\<close>; an own property named
  \<open>toString\<close> shadows that method and, coming from JSON, is not callable, and
  \<^verbatim>\<open>valueOf\<close> returns no primitive, so the conversion raises a \<^verbatim>\<open>TypeError\<close>.
\<close>

fun ToString :: "json \<Rightarrow> exn + jstring"
  and join_elements :: "json list \<Rightarrow> exn + jstring" where
  "ToString JNull = Inr (lit ''null'')"
| "ToString (JBool b) = Inr (if b then lit ''true'' else lit ''false'')"
| "ToString (JNum n) = Inr (show_int n)"
| "ToString (JStr s) = Inr s"
| "ToString (JArr xs) = join_elements xs"
| "ToString (JObj kvs) =
     (if map_of kvs (lit ''toString'') \<noteq> None then Inl TypeError
      else Inr (lit ''[object Object]''))"
| "join_elements [] = Inr []"
| "join_elements (x # xs) =
     (case (if x = JNull then Inr [] else ToString x) of
        Inl e \<Rightarrow> Inl e
      | Inr s \<Rightarrow>
          if xs = [] then Inr s
          else (case join_elements xs of
                  Inl e \<Rightarrow> Inl e
                | Inr r \<Rightarrow> Inr (s @ 0x2C # r)))"

text \<open>
  \<^verbatim>\<open>Object.entries(v)\<close> for a truthy \<open>v\<close>: the properties of an object, the indexed
  elements of an array, the indexed code units of a string, nothing for a number or
  \<open>true\<close>.
\<close>

fun Object_entries :: "json \<Rightarrow> (jstring \<times> json) list" where
  "Object_entries (JObj kvs) = kvs"
| "Object_entries (JArr xs) = zip (map digits [0..<length xs]) xs"
| "Object_entries (JStr s) = zip (map digits [0..<length s]) (map (\<lambda>c. JStr [c]) s)"
| "Object_entries v = []"

section \<open>The functions of index.js\<close>

text \<open>
  \<^verbatim>\<open>severityRank[r]\<close>: a rank for the three levels. Any other key gives undefined or an
  inherited function, and \<^verbatim>\<open>>=\<close> with one of those is false.
\<close>

definition severityRank :: "jstring \<Rightarrow> nat option" where
  "severityRank r =
     (if r = lit ''low'' then Some 1
      else if r = lit ''medium'' then Some 2
      else if r = lit ''high'' then Some 3
      else None)"

definition rank_ge :: "nat option \<Rightarrow> nat option \<Rightarrow> bool" where
  "rank_ge a b = (case (a, b) of (Some x, Some y) \<Rightarrow> y \<le> x | _ \<Rightarrow> False)"

text \<open>\<^verbatim>\<open>process.env\<close> maps the name of a variable to its value, a string.\<close>

definition getInput :: "(jstring \<Rightarrow> jstring option) \<Rightarrow> jstring \<Rightarrow> jstring \<Rightarrow> jstring" where
  "getInput environ name fallback =
     (case environ (lit ''INPUT_'' @ toUpperCase (map (\<lambda>c. if c = 0x20 then 0x5F else c) name)) of
        None \<Rightarrow> fallback
      | Some v \<Rightarrow> v)"

definition parseCsv :: "jstring \<Rightarrow> jstring list" where
  "parseCsv input = filter (\<lambda>s. s \<noteq> []) (map trim (split_comma input))"

definition normalizeRisk :: "json option \<Rightarrow> exn + jstring" where
  "normalizeRisk risk =
     (case ToString (or_default risk (JStr [])) of
        Inl e \<Rightarrow> Inl e
      | Inr s \<Rightarrow>
          (let r = toLowerCase s
           in if r = lit ''high'' \<or> r = lit ''medium'' \<or> r = lit ''low'' then Inr r
              else Inr (lit ''low'')))"

definition icon :: "jstring \<Rightarrow> jstring" where
  "icon risk =
     (if risk = lit ''high'' then [0x2716]
      else if risk = lit ''medium'' then [0x26A0]
      else [0x2714])"

definition annotationPrefix :: "jstring \<Rightarrow> jstring" where
  "annotationPrefix sev =
     (if sev = lit ''high'' then lit ''::error::''
      else if sev = lit ''medium'' then lit ''::warning::''
      else lit ''::notice::'')"

text \<open>
  \<^verbatim>\<open>issueToMessage\<close> returns whatever \<^verbatim>\<open>issue.message || issue.title\<close> holds, a string
  or not. \<^verbatim>\<open>JSON.stringify\<close> is a parameter.
\<close>

definition issueToMessage :: "(json \<Rightarrow> jstring) \<Rightarrow> json \<Rightarrow> exn + json" where
  "issueToMessage stringify issue =
     (case issue of
        JStr s \<Rightarrow> Inr issue
      | _ \<Rightarrow>
          if is_object issue then
            Inr (or_default (member issue (lit ''message''))
                   (or_default (member issue (lit ''title'')) (JStr (stringify issue))))
          else (case ToString issue of Inl e \<Rightarrow> Inl e | Inr s \<Rightarrow> Inr (JStr s)))"

text \<open>
  \<^verbatim>\<open>inferSeverityFromIssue\<close>. Only a string has a callable \<^verbatim>\<open>toLowerCase\<close>: on any
  other message the call raises a \<^verbatim>\<open>TypeError\<close>.
\<close>

definition inferSeverityFromIssue :: "(json \<Rightarrow> jstring) \<Rightarrow> json \<Rightarrow> jstring \<Rightarrow> exn + jstring" where
  "inferSeverityFromIssue stringify issue fallbackPairRisk =
     (if is_object issue \<and> is_truthy (member issue (lit ''severity'')) then
        normalizeRisk (member issue (lit ''severity''))
      else
        (case issueToMessage stringify issue of
           Inl e \<Rightarrow> Inl e
         | Inr (JStr m) \<Rightarrow>
             (let msg = toLowerCase m
              in if str_includes msg (lit ''missing snapshot for production'')
                    \<or> str_includes msg (lit ''app_debug'') then Inr (lit ''high'')
                 else if str_includes msg (lit ''missing env key'')
                    \<or> str_includes msg (lit ''mismatch'') then Inr (lit ''medium'')
                 else normalizeRisk (Some (JStr fallbackPairRisk)))
         | Inr v \<Rightarrow> Inl TypeError))"

section \<open>The run\<close>

text \<open>
  What \<^verbatim>\<open>main\<close> does to the world: the lines written with \<^verbatim>\<open>console.log\<close> and
  \<^verbatim>\<open>console.error\<close>, the requests handed to \<^verbatim>\<open>fetch\<close>, and the exit code. \<open>Trace e\<close>
  is the line the handler of \<^verbatim>\<open>main().catch\<close> writes for the exception \<open>e\<close>: its stack,
  which starts with its message. \<open>compared\<close> records the operands of the comparison of
  ranks, when the run reaches it.
\<close>

datatype line = Log jstring | Err jstring | Trace exn

record request =
  url :: jstring
  http_method :: jstring
  headers :: "(jstring \<times> jstring) list"
  body :: jstring

record response =
  status :: nat
  body_text :: jstring

text \<open>\<^verbatim>\<open>res.ok\<close>: the status is in the range 200 to 299.\<close>

definition ok :: "response \<Rightarrow> bool" where
  "ok res = (200 \<le> status res \<and> status res \<le> 299)"

text \<open>
  What the program is given: the environment, \<^verbatim>\<open>fetch\<close> (with \<^verbatim>\<open>res.text()\<close>; a
  rejection of either is the exception on the left), \<^verbatim>\<open>JSON.parse\<close> (\<open>None\<close> when it
  throws) and \<^verbatim>\<open>JSON.stringify\<close>.
\<close>

record platform =
  env :: "jstring \<Rightarrow> jstring option"
  fetch :: "request \<Rightarrow> exn + response"
  JSON_parse :: "jstring \<Rightarrow> json option"
  JSON_stringify :: "json \<Rightarrow> jstring"

record run =
  out :: "line list"
  requests :: "request list"
  compared :: "(jstring \<times> jstring) option"
  exit_code :: nat

record counts =
  high :: nat
  medium :: nat
  low :: nat

text \<open>
  \<^verbatim>\<open>counts[r] += 1\<close>. A key other than the three levels would add a property that is
  never read.
\<close>

definition bump :: "jstring \<Rightarrow> counts \<Rightarrow> counts" where
  "bump r c =
     (if r = lit ''high'' then c\<lparr>high := high c + 1\<rparr>
      else if r = lit ''medium'' then c\<lparr>medium := medium c + 1\<rparr>
      else if r = lit ''low'' then c\<lparr>low := low c + 1\<rparr>
      else c)"

text \<open>\<^verbatim>\<open>Array.isArray(data?.issues) ? data.issues : []\<close>\<close>

definition issues_of :: "json \<Rightarrow> json list" where
  "issues_of data = (case member data (lit ''issues'') of Some (JArr xs) \<Rightarrow> xs | _ \<Rightarrow> [])"

text \<open>The body of the first loop, for one pair, and the loop.\<close>

definition count_pair :: "json \<Rightarrow> counts \<times> nat \<Rightarrow> exn + counts \<times> nat" where
  "count_pair data acc =
     (case normalizeRisk (member data (lit ''risk'')) of
        Inl e \<Rightarrow> Inl e
      | Inr r \<Rightarrow> Inr (bump r (fst acc), snd acc + length (issues_of data)))"

fun count_pairs :: "(jstring \<times> json) list \<Rightarrow> counts \<times> nat \<Rightarrow> exn + counts \<times> nat" where
  "count_pairs [] acc = Inr acc"
| "count_pairs (entry # rest) acc =
     (case count_pair (snd entry) acc of
        Inl e \<Rightarrow> Inl e
      | Inr acc' \<Rightarrow> count_pairs rest acc')"

text \<open>
  The printing loops return the lines written, and the exception that stopped them if
  one did.
\<close>

definition print_issue ::
  "(json \<Rightarrow> jstring) \<Rightarrow> bool \<Rightarrow> jstring \<Rightarrow> jstring \<Rightarrow> json \<Rightarrow> line list \<times> exn option" where
  "print_issue stringify annotate pairName r issue =
     (case issueToMessage stringify issue of
        Inl e \<Rightarrow> ([], Some e)
      | Inr msg \<Rightarrow>
          (case ToString msg of
             Inl e \<Rightarrow> ([], Some e)
           | Inr m \<Rightarrow>
               if annotate then
                 (case inferSeverityFromIssue stringify issue r of
                    Inl e \<Rightarrow> ([Log (lit ''  - '' @ m)], Some e)
                  | Inr sev \<Rightarrow>
                      ([Log (lit ''  - '' @ m),
                        Log (annotationPrefix sev @ pairName @ lit '': '' @ m)], None))
               else ([Log (lit ''  - '' @ m)], None)))"

fun print_issues ::
  "(json \<Rightarrow> jstring) \<Rightarrow> bool \<Rightarrow> jstring \<Rightarrow> jstring \<Rightarrow> json list \<Rightarrow> line list \<times> exn option" where
  "print_issues stringify annotate pairName r [] = ([], None)"
| "print_issues stringify annotate pairName r (issue # rest) =
     (case print_issue stringify annotate pairName r issue of
        (ls, Some e) \<Rightarrow> (ls, Some e)
      | (ls, None) \<Rightarrow>
          (case print_issues stringify annotate pairName r rest of
             (ls', x) \<Rightarrow> (ls @ ls', x)))"

definition print_pair ::
  "(json \<Rightarrow> jstring) \<Rightarrow> bool \<Rightarrow> jstring \<times> json \<Rightarrow> line list \<times> exn option" where
  "print_pair stringify annotate entry =
     (case normalizeRisk (member (snd entry) (lit ''risk'')) of
        Inl e \<Rightarrow> ([], Some e)
      | Inr r \<Rightarrow>
          (let issues = issues_of (snd entry)
           in if issues = [] then ([], None)
              else (case print_issues stringify annotate (fst entry) r issues of
                      (ls, x) \<Rightarrow>
                        (Log (0xA # icon r @ lit '' '' @ fst entry @ lit '' (''
                                @ toUpperCase r @ lit '')'') # ls, x))))"

fun print_pairs ::
  "(json \<Rightarrow> jstring) \<Rightarrow> bool \<Rightarrow> (jstring \<times> json) list \<Rightarrow> line list \<times> exn option" where
  "print_pairs stringify annotate [] = ([], None)"
| "print_pairs stringify annotate (entry # rest) =
     (case print_pair stringify annotate entry of
        (ls, Some e) \<Rightarrow> (ls, Some e)
      | (ls, None) \<Rightarrow>
          (case print_pairs stringify annotate rest of
             (ls', x) \<Rightarrow> (ls @ ls', x)))"

text \<open>
  Lines 92 to 126 of \<^verbatim>\<open>main\<close>: from the parsed response to the lines of the report and
  \<open>globalRisk\<close>, or the exception raised on the way. \<^verbatim>\<open>json.risk\<close> raises on \<open>null\<close>.
\<close>

definition report ::
  "(json \<Rightarrow> jstring) \<Rightarrow> jstring \<Rightarrow> bool \<Rightarrow> json \<Rightarrow> line list \<times> (exn + jstring)" where
  "report stringify baseline annotate json =
     (if json = JNull then ([], Inl TypeError)
      else
        (case normalizeRisk (member json (lit ''risk'')) of
           Inl e \<Rightarrow> ([], Inl e)
         | Inr globalRisk \<Rightarrow>
             (let pairEntries = Object_entries (or_default (member json (lit ''pairs'')) (JObj []))
              in case count_pairs pairEntries (\<lparr>high = 0, medium = 0, low = 0\<rparr>, 0) of
                   Inl e \<Rightarrow> ([], Inl e)
                 | Inr (cnt, totalIssues) \<Rightarrow>
                     (let summary =
                            [Log (lit ''CloudMonitor baseline='' @ baseline @ lit '' risk=''
                                  @ toUpperCase globalRisk @ lit '' pairs=''
                                  @ digits (length pairEntries) @ lit '' issues=''
                                  @ digits totalIssues),
                             Log (lit ''Pairs: '' @ digits (high cnt) @ lit '' HIGH / ''
                                  @ digits (medium cnt) @ lit '' MED / ''
                                  @ digits (low cnt) @ lit '' LOW'')]
                      in case print_pairs stringify annotate pairEntries of
                           (ls, Some e) \<Rightarrow> (summary @ ls, Inl e)
                         | (ls, None) \<Rightarrow> (summary @ ls, Inr globalRisk)))))"

text \<open>\<^verbatim>\<open>.replace(/\/$/, "")\<close>: one slash at the very end is removed.\<close>

definition strip_slash :: "jstring \<Rightarrow> jstring" where
  "strip_slash s = (if s \<noteq> [] \<and> last s = 0x2F then butlast s else s)"

text \<open>Lines 56 to 61: the configuration, read from the environment.\<close>

definition apiKey :: "platform \<Rightarrow> jstring" where
  "apiKey w = getInput (env w) (lit ''api_key'') []"

definition apiUrl :: "platform \<Rightarrow> jstring" where
  "apiUrl w = strip_slash (getInput (env w) (lit ''api_url'') [])"

definition baseline :: "platform \<Rightarrow> jstring" where
  "baseline w = getInput (env w) (lit ''baseline'') (lit ''production'')"

definition environments :: "platform \<Rightarrow> jstring list" where
  "environments w = parseCsv (getInput (env w) (lit ''environments'') (lit ''staging,production''))"

definition failOn :: "platform \<Rightarrow> exn + jstring" where
  "failOn w = normalizeRisk (Some (JStr (getInput (env w) (lit ''fail_on'') (lit ''high''))))"

definition annotate :: "platform \<Rightarrow> bool" where
  "annotate w = (toLowerCase (getInput (env w) (lit ''annotate'') (lit ''true'')) \<noteq> lit ''false'')"

text \<open>The request of lines 66 to 77.\<close>

definition compare_request :: "platform \<Rightarrow> request" where
  "compare_request w =
     \<lparr>url = apiUrl w @ lit ''/api/compare'',
      http_method = lit ''POST'',
      headers = [(lit ''Authorization'', lit ''Bearer '' @ apiKey w),
                 (lit ''Content-Type'', lit ''application/json''),
                 (lit ''Accept'', lit ''application/json'')],
      body = JSON_stringify w
               (JObj [(lit ''environments'', JArr (map JStr (environments w))),
                      (lit ''baseline'', JStr (baseline w))])\<rparr>"

text \<open>
  Lines 79 to 90: the parsed body, or the exception thrown for a body that does not
  parse or a status that is not a success.
\<close>

definition read_response :: "platform \<Rightarrow> response \<Rightarrow> exn + json" where
  "read_response w res =
     (case (if body_text res \<noteq> [] then JSON_parse w (body_text res) else Some (JObj [])) of
        None \<Rightarrow>
          Inl (Error (lit ''CloudMonitor compare returned non-JSON (status ''
                      @ digits (status res) @ lit ''): '' @ take 200 (body_text res)))
      | Some json \<Rightarrow>
          if \<not> ok res then
            (case (if is_truthy (member json (lit ''message''))
                   then (case ToString (or_default (member json (lit ''message'')) JNull) of
                           Inl e \<Rightarrow> Inl e
                         | Inr m \<Rightarrow> Inr (lit '': '' @ m))
                   else Inr []) of
               Inl e \<Rightarrow> Inl e
             | Inr msg \<Rightarrow>
                 Inl (Error (lit ''CloudMonitor compare failed (status ''
                             @ digits (status res) @ lit '')'' @ msg)))
          else Inr json)"

text \<open>
  \<^verbatim>\<open>main\<close> with its handler: an exception thrown anywhere is written by
  \<^verbatim>\<open>console.error\<close> and the process exits with 1.
\<close>

definition crash :: "line list \<Rightarrow> request list \<Rightarrow> exn \<Rightarrow> run" where
  "crash ls reqs e = \<lparr>out = ls @ [Trace e], requests = reqs, compared = None, exit_code = 1\<rparr>"

text \<open>Lines 129 to 134: the comparison of ranks and the exit.\<close>

definition decide :: "line list \<Rightarrow> request list \<Rightarrow> jstring \<Rightarrow> jstring \<Rightarrow> run" where
  "decide ls reqs globalRisk threshold =
     (if rank_ge (severityRank globalRisk) (severityRank threshold) then
        \<lparr>out = ls @ [Err (lit ''CloudMonitor: failing because risk='' @ toUpperCase globalRisk
                          @ lit '' >= fail_on='' @ toUpperCase threshold)],
         requests = reqs, compared = Some (globalRisk, threshold), exit_code = 1\<rparr>
      else
        \<lparr>out = ls, requests = reqs, compared = Some (globalRisk, threshold), exit_code = 0\<rparr>)"

definition main :: "platform \<Rightarrow> run" where
  "main w =
     (case failOn w of
        Inl e \<Rightarrow> crash [] [] e
      | Inr threshold \<Rightarrow>
          if apiKey w = [] then crash [] [] (Error (lit ''Missing required input: api_key''))
          else if apiUrl w = [] then crash [] [] (Error (lit ''Missing required input: api_url''))
          else
            (case fetch w (compare_request w) of
               Inl e \<Rightarrow> crash [] [compare_request w] e
             | Inr res \<Rightarrow>
                 (case read_response w res of
                    Inl e \<Rightarrow> crash [] [compare_request w] e
                  | Inr json \<Rightarrow>
                      (case report (JSON_stringify w) (baseline w) (annotate w) json of
                         (ls, Inl e) \<Rightarrow> crash ls [compare_request w] e
                       | (ls, Inr globalRisk) \<Rightarrow>
                           decide ls [compare_request w] globalRisk threshold))))"

section \<open>Notions of the specification\<close>

text \<open>
  \<open>s\<close> is the word \<open>t\<close> of lower-case ASCII letters up to the case of its letters:
  the two have the same length, and each code unit of \<open>s\<close> is the letter of \<open>t\<close> at
  its place or that letter's capital.
\<close>

definition ci_equal :: "jstring \<Rightarrow> jstring \<Rightarrow> bool" where
  "ci_equal s t = list_all2 (\<lambda>c d. c = d \<or> c = d - 0x20) s t"

text \<open>
  The keyword inference of the specification: a case-insensitive substring match
  against the rendered message, checked in this order, the first match winning;
  \<open>None\<close> when no keyword occurs.
\<close>

definition keyword_severity :: "jstring \<Rightarrow> jstring option" where
  "keyword_severity m =
     (if str_includes (toLowerCase m) (lit ''missing snapshot for production'')
         \<or> str_includes (toLowerCase m) (lit ''app_debug'') then Some (lit ''high'')
      else if str_includes (toLowerCase m) (lit ''missing env key'')
         \<or> str_includes (toLowerCase m) (lit ''mismatch'') then Some (lit ''medium'')
      else None)"

text \<open>
  The shape of a response that the specification documents: an object whose \<open>risk\<close>,
  when present, is a string, and whose \<open>pairs\<close>, when present, is an object of pairs;
  a pair is an object whose \<open>risk\<close>, when present, is a string and whose \<open>issues\<close>,
  when present, is an array; an issue is a string or an object whose \<open>severity\<close>,
  \<open>message\<close> and \<open>title\<close>, when present, are strings.
\<close>

definition string_or_absent :: "json option \<Rightarrow> bool" where
  "string_or_absent a = (case a of None \<Rightarrow> True | Some (JStr s) \<Rightarrow> True | Some v \<Rightarrow> False)"

definition issue_shaped :: "json \<Rightarrow> bool" where
  "issue_shaped issue =
     (case issue of
        JStr s \<Rightarrow> True
      | JObj kvs \<Rightarrow>
          string_or_absent (map_of kvs (lit ''severity''))
          \<and> string_or_absent (map_of kvs (lit ''message''))
          \<and> string_or_absent (map_of kvs (lit ''title''))
      | _ \<Rightarrow> False)"

definition pair_shaped :: "json \<Rightarrow> bool" where
  "pair_shaped data =
     (case data of
        JObj kvs \<Rightarrow>
          string_or_absent (map_of kvs (lit ''risk''))
          \<and> (case map_of kvs (lit ''issues'') of
                None \<Rightarrow> True
              | Some (JArr xs) \<Rightarrow> list_all issue_shaped xs
              | Some v \<Rightarrow> False)
      | _ \<Rightarrow> False)"

definition response_shaped :: "json \<Rightarrow> bool" where
  "response_shaped json =
     (case json of
        JObj kvs \<Rightarrow>
          string_or_absent (map_of kvs (lit ''risk''))
          \<and> (case map_of kvs (lit ''pairs'') of
                None \<Rightarrow> True
              | Some (JObj ps) \<Rightarrow> list_all (\<lambda>entry. pair_shaped (snd entry)) ps
              | Some v \<Rightarrow> False)
      | _ \<Rightarrow> False)"

section \<open>Concrete runs\<close>

text \<open>
  An environment that sets \<^verbatim>\<open>INPUT_API_KEY\<close> and \<^verbatim>\<open>INPUT_API_URL\<close> only, so that every
  other input takes its default, and a platform whose \<^verbatim>\<open>fetch\<close> answers with a given
  status and body and whose \<^verbatim>\<open>JSON.parse\<close> reads that body as a given value.
\<close>

definition demo_env :: "jstring \<Rightarrow> jstring option" where
  "demo_env k =
     (if k = lit ''INPUT_API_KEY'' then Some (lit ''token'')
      else if k = lit ''INPUT_API_URL'' then Some (lit ''https://cloudmonitor.example/'')
      else None)"

definition demo_platform :: "nat \<Rightarrow> jstring \<Rightarrow> json option \<Rightarrow> platform" where
  "demo_platform code txt parsed =
     \<lparr>env = demo_env,
      fetch = (\<lambda>req. Inr \<lparr>status = code, body_text = txt\<rparr>),
      JSON_parse = (\<lambda>t. if t = txt then parsed else None),
      JSON_stringify = (\<lambda>v. lit ''{}'')\<rparr>"

text \<open>The same platform with no input set at all.\<close>

definition bare_platform :: platform where
  "bare_platform = (demo_platform 200 [] None)\<lparr>env := (\<lambda>k. None)\<rparr>"

text \<open>The response of the specification's example, as text and as parsed.\<close>

definition example_text :: jstring where
  \<open>example_text =
     lit ''{"risk":"high","pairs":{"a":{"risk":"low","issues":[]},"b":{"risk":"high","issues":["missing snapshot for production app"]}}}''\<close>

definition example_json :: json where
  "example_json =
     JObj [(lit ''risk'', JStr (lit ''high'')),
           (lit ''pairs'',
            JObj [(lit ''a'', JObj [(lit ''risk'', JStr (lit ''low'')),
                                   (lit ''issues'', JArr [])]),
                  (lit ''b'', JObj [(lit ''risk'', JStr (lit ''high'')),
                                   (lit ''issues'',
                                    JArr [JStr (lit ''missing snapshot for production app'')])])])]"

text \<open>A response of low risk whose only issue has a number as its message.\<close>

definition numeric_message_text :: jstring where
  \<open>numeric_message_text =
     lit ''{"risk":"low","pairs":{"a":{"risk":"low","issues":[{"message":5}]}}}''\<close>

definition numeric_message_json :: json where
  "numeric_message_json =
     JObj [(lit ''risk'', JStr (lit ''low'')),
           (lit ''pairs'',
            JObj [(lit ''a'', JObj [(lit ''risk'', JStr (lit ''low'')),
                                   (lit ''issues'',
                                    JArr [JObj [(lit ''message'', JNum 5)]])])])]"

text \<open>An issue whose severity is no risk level and whose message holds a keyword.\<close>

definition critical_issue :: json where
  "critical_issue =
     JObj [(lit ''severity'', JStr (lit ''critical'')),
           (lit ''message'', JStr (lit ''APP_DEBUG is enabled''))]"

text \<open>Two more issues: one of severity \<open>low\<close> with the same message, one with a message only.\<close>

definition low_issue :: json where
  "low_issue =
     JObj [(lit ''severity'', JStr (lit ''low'')),
           (lit ''message'', JStr (lit ''APP_DEBUG is enabled''))]"

definition env_key_issue :: json where
  "env_key_issue = JObj [(lit ''message'', JStr (lit ''missing env key X''))]"

text \<open>An issue whose severity is an array, which \<^verbatim>\<open>String\<close> joins to \<open>HIGH\<close>.\<close>

definition array_severity_issue :: json where
  "array_severity_issue =
     JObj [(lit ''severity'', JArr [JStr (lit ''HIGH'')]),
           (lit ''message'', JStr (lit ''x''))]"




section \<open>Strings\<close>

lemma lit_high: "lit ''high'' = [0x68, 0x69, 0x67, 0x68]"
  by (simp add: lit_def)

lemma lit_medium: "lit ''medium'' = [0x6D, 0x65, 0x64, 0x69, 0x75, 0x6D]"
  by (simp add: lit_def)

lemma lit_low: "lit ''low'' = [0x6C, 0x6F, 0x77]"
  by (simp add: lit_def)

lemmas lit_levels = lit_high lit_medium lit_low

lemma toLowerCase_Nil: "toLowerCase [] = []"
  by (simp add: toLowerCase_def)

lemma toLowerCase_Cons: "toLowerCase (c # s) = lower_unit c @ toLowerCase s"
  by (simp add: toLowerCase_def)

lemma lower_unit_shape: "(\<exists>d. lower_unit c = [d]) \<or> lower_unit c = [0x69, 0x307]"
  by (simp add: lower_unit_def)

text \<open>
  A text without U+0307 is the lower case of \<open>s\<close> exactly when \<open>s\<close> has its length and
  each code unit of \<open>s\<close> is lowered to the code unit at its place.
\<close>

lemma toLowerCase_eq_iff:
  "0x307 \<notin> set t \<Longrightarrow> (toLowerCase s = t) = list_all2 (\<lambda>c d. lower_unit c = [d]) s t"
proof (induction s arbitrary: t)
  case Nil
  then show ?case by (auto simp: toLowerCase_Nil)
next
  case (Cons c s)
  show ?case
  proof (cases t)
    case Nil
    then show ?thesis using lower_unit_shape[of c] by (auto simp: toLowerCase_Cons)
  next
    case (Cons d t')
    with Cons.prems have t': "0x307 \<notin> set t'" by simp
    from lower_unit_shape[of c] show ?thesis
    proof
      assume "\<exists>e. lower_unit c = [e]"
      then obtain e where "lower_unit c = [e]" ..
      then show ?thesis using Cons.IH[OF t'] Cons by (simp add: toLowerCase_Cons)
    next
      assume two: "lower_unit c = [0x69, 0x307]"
      have "toLowerCase (c # s) \<noteq> t"
      proof
        assume "toLowerCase (c # s) = t"
        then have "0x307 \<in> set t" using two by (auto simp: toLowerCase_Cons)
        with Cons.prems show False by simp
      qed
      then show ?thesis using two Cons by simp
    qed
  qed
qed

lemma lower_unit_letter:
  "0x61 \<le> d \<Longrightarrow> d \<le> 0x7A \<Longrightarrow> d \<noteq> 0x6B \<Longrightarrow>
   (lower_unit c = [d]) = (c = d \<or> c = d - 0x20)"
  unfolding lower_unit_def by (auto; unat_arith)

lemma list_all2_cong_right:
  "(\<And>c d. d \<in> set t \<Longrightarrow> P c d = Q c d) \<Longrightarrow> list_all2 P s t = list_all2 Q s t"
  by (induction s arbitrary: t) (auto simp: list_all2_Cons1)

lemma toLowerCase_word:
  assumes "\<And>d. d \<in> set t \<Longrightarrow> 0x61 \<le> d \<and> d \<le> 0x7A \<and> d \<noteq> 0x6B"
  shows "(toLowerCase s = t) = ci_equal s t"
proof -
  have "0x307 \<notin> set t" using assms by fastforce
  then have "(toLowerCase s = t) = list_all2 (\<lambda>c d. lower_unit c = [d]) s t"
    by (rule toLowerCase_eq_iff)
  also have "\<dots> = ci_equal s t"
    unfolding ci_equal_def
    by (rule list_all2_cong_right) (use assms lower_unit_letter in blast)
  finally show ?thesis .
qed

lemma toLowerCase_high: "(toLowerCase s = lit ''high'') = ci_equal s (lit ''high'')"
  by (rule toLowerCase_word) (auto simp: lit_high)

lemma toLowerCase_medium: "(toLowerCase s = lit ''medium'') = ci_equal s (lit ''medium'')"
  by (rule toLowerCase_word) (auto simp: lit_medium)

lemma toLowerCase_low: "(toLowerCase s = lit ''low'') = ci_equal s (lit ''low'')"
  by (rule toLowerCase_word) (auto simp: lit_low)

lemma ci_equal_last:
  "ci_equal s t \<Longrightarrow> t \<noteq> [] \<Longrightarrow> s \<noteq> [] \<and> (last s = last t \<or> last s = last t - 0x20)"
  unfolding ci_equal_def
  by (induction s t rule: list_all2_induct) auto

text \<open>A number written in decimal ends with a digit, so it is no risk level.\<close>

lemma digits_nonempty: "digits n \<noteq> []"
  by (subst digits.simps) simp

lemma last_digits: "last (digits n) = of_nat (48 + n mod 10)"
  by (subst digits.simps) simp

lemma unat_digit: "m < 10 \<Longrightarrow> unat (of_nat (48 + m) :: 16 word) = 48 + m"
  by (simp only: unat_of_nat) simp

lemma last_show_int: "\<exists>m<10. last (show_int i) = of_nat (48 + m)"
proof -
  have "last (show_int i) = of_nat (48 + nat \<bar>i\<bar> mod 10)"
    by (simp add: show_int_def digits_nonempty last_digits)
  then show ?thesis by (intro exI[of _ "nat \<bar>i\<bar> mod 10"]) simp
qed

lemma digit_not_letter:
  assumes "m < 10" "c = (of_nat (48 + m) :: 16 word)" "ci_equal s t" "s \<noteq> [] \<Longrightarrow> last s = c"
    "t \<noteq> []" "0x61 \<le> last t"
  shows False
proof -
  from assms(3,5) have s: "s \<noteq> []" and l: "last s = last t \<or> last s = last t - 0x20"
    using ci_equal_last by blast+
  have u: "unat (last s) = 48 + m" using assms(1,2,4) s unat_digit by simp
  from l assms(6) u assms(1) show False by (elim disjE; unat_arith)
qed

lemma show_int_not_level:
  "toLowerCase (show_int i) \<noteq> lit ''high''"
  "toLowerCase (show_int i) \<noteq> lit ''medium''"
  "toLowerCase (show_int i) \<noteq> lit ''low''"
proof -
  obtain m where m: "m < 10" "last (show_int i) = of_nat (48 + m)"
    using last_show_int by blast
  show "toLowerCase (show_int i) \<noteq> lit ''high''"
  proof
    assume "toLowerCase (show_int i) = lit ''high''"
    then have "ci_equal (show_int i) (lit ''high'')" by (simp only: toLowerCase_high)
    then show False
      by (rule digit_not_letter[OF m(1) refl]) (simp_all add: m lit_high)
  qed
  show "toLowerCase (show_int i) \<noteq> lit ''medium''"
  proof
    assume "toLowerCase (show_int i) = lit ''medium''"
    then have "ci_equal (show_int i) (lit ''medium'')" by (simp only: toLowerCase_medium)
    then show False
      by (rule digit_not_letter[OF m(1) refl]) (simp_all add: m lit_medium)
  qed
  show "toLowerCase (show_int i) \<noteq> lit ''low''"
  proof
    assume "toLowerCase (show_int i) = lit ''low''"
    then have "ci_equal (show_int i) (lit ''low'')" by (simp only: toLowerCase_low)
    then show False
      by (rule digit_not_letter[OF m(1) refl]) (simp_all add: m lit_low)
  qed
qed

section \<open>Normalization\<close>

lemma normalizeRisk_JStr:
  "normalizeRisk (Some (JStr s)) =
     Inr (if toLowerCase s = lit ''high'' \<or> toLowerCase s = lit ''medium''
             \<or> toLowerCase s = lit ''low'' then toLowerCase s else lit ''low'')"
  by (simp add: normalizeRisk_def or_default_def Let_def)

lemma normalizeRisk_level:
  "normalizeRisk v = Inr r \<Longrightarrow> r = lit ''high'' \<or> r = lit ''medium'' \<or> r = lit ''low''"
  by (auto simp: normalizeRisk_def Let_def split: sum.splits if_splits)

lemma normalizeRisk_None: "normalizeRisk None = Inr (lit ''low'')"
  by (simp add: normalizeRisk_def or_default_def Let_def toLowerCase_Nil lit_levels)

lemma toLowerCase_level:
  "toLowerCase (lit ''high'') = lit ''high''"
  "toLowerCase (lit ''medium'') = lit ''medium''"
  "toLowerCase (lit ''low'') = lit ''low''"
  by (simp_all add: lit_def toLowerCase_def lower_unit_def)

lemma normalizeRisk_of_level:
  "r = lit ''high'' \<or> r = lit ''medium'' \<or> r = lit ''low'' \<Longrightarrow>
   normalizeRisk (Some (JStr r)) = Inr r"
  by (auto simp: normalizeRisk_JStr toLowerCase_level)

lemma severityRank_level:
  "severityRank (lit ''low'') = Some 1"
  "severityRank (lit ''medium'') = Some 2"
  "severityRank (lit ''high'') = Some 3"
  by (simp_all add: severityRank_def lit_levels)

lemma failOn_total: "\<exists>f. failOn w = Inr f"
  by (simp add: failOn_def normalizeRisk_JStr)

lemma failOn_level:
  "failOn w = Inr f \<Longrightarrow> f = lit ''high'' \<or> f = lit ''medium'' \<or> f = lit ''low''"
  unfolding failOn_def by (rule normalizeRisk_level)

section \<open>Risk normalization\<close>

text \<open>
  C2, as the code has it. \<^verbatim>\<open>normalizeRisk\<close> maps a string that is \<open>high\<close>, \<open>medium\<close> or
  \<open>low\<close> up to the case of its letters to that word in lower case, and maps every other
  string (the empty one too), an absent value, \<open>null\<close>, a boolean, a number and an object
  without an own \<open>toString\<close> property to \<open>low\<close>. An array is not among them:
  \<^verbatim>\<open>String\<close> joins its elements with commas, and the joined string is normalized.
\<close>

theorem normalizeRisk_cases:
  "normalizeRisk (Some (JStr s)) =
     Inr (if ci_equal s (lit ''high'') then lit ''high''
          else if ci_equal s (lit ''medium'') then lit ''medium''
          else lit ''low'')
   \<and> normalizeRisk None = Inr (lit ''low'')
   \<and> normalizeRisk (Some JNull) = Inr (lit ''low'')
   \<and> normalizeRisk (Some (JBool b)) = Inr (lit ''low'')
   \<and> normalizeRisk (Some (JNum n)) = Inr (lit ''low'')
   \<and> (map_of kvs (lit ''toString'') = None \<longrightarrow>
        normalizeRisk (Some (JObj kvs)) = Inr (lit ''low''))
   \<and> normalizeRisk (Some (JArr xs)) =
       (case join_elements xs of Inl e \<Rightarrow> Inl e | Inr joined \<Rightarrow> normalizeRisk (Some (JStr joined)))"
proof (intro conjI impI)
  show "normalizeRisk (Some (JStr s)) =
     Inr (if ci_equal s (lit ''high'') then lit ''high''
          else if ci_equal s (lit ''medium'') then lit ''medium''
          else lit ''low'')"
    unfolding normalizeRisk_JStr
    by (simp add: toLowerCase_high toLowerCase_medium toLowerCase_low)
  show "normalizeRisk None = Inr (lit ''low'')"
    by (rule normalizeRisk_None)
  show "normalizeRisk (Some JNull) = Inr (lit ''low'')"
    by (simp add: normalizeRisk_def or_default_def Let_def toLowerCase_Nil lit_levels)
  show "normalizeRisk (Some (JBool b)) = Inr (lit ''low'')"
    by (cases b)
      (simp_all add: normalizeRisk_def or_default_def Let_def toLowerCase_def lower_unit_def lit_def)
  show "normalizeRisk (Some (JNum n)) = Inr (lit ''low'')"
    by (simp add: normalizeRisk_def or_default_def Let_def toLowerCase_Nil lit_levels
        show_int_not_level[unfolded lit_levels])
  show "normalizeRisk (Some (JObj kvs)) = Inr (lit ''low'')"
    if "map_of kvs (lit ''toString'') = None"
    using that
    by (simp add: normalizeRisk_def or_default_def Let_def toLowerCase_def lower_unit_def lit_def)
  show "normalizeRisk (Some (JArr xs)) =
       (case join_elements xs of Inl e \<Rightarrow> Inl e | Inr joined \<Rightarrow> normalizeRisk (Some (JStr joined)))"
    by (simp add: normalizeRisk_def or_default_def split: sum.splits)
qed

theorem normalizeRisk_cases_witness:
  "map_of ([] :: (jstring \<times> json) list) (lit ''toString'') = None
   \<and> normalizeRisk (Some (JObj [])) = Inr (lit ''low'')
   \<and> normalizeRisk (Some (JStr (lit ''MeDiuM''))) = Inr (lit ''medium'')"
  using normalizeRisk_cases[of "lit ''MeDiuM''" True 0 "[]" "[]"]
  by (simp add: ci_equal_def lit_def)

theorem normalizeRisk_array_counterexample:
  "normalizeRisk (Some (JArr [JStr (lit ''HIGH'')])) = Inr (lit ''high'')
   \<and> lit ''high'' \<noteq> lit ''low''"
  by (simp add: normalizeRisk_def or_default_def Let_def toLowerCase_def lower_unit_def lit_def)

section \<open>The list of environments\<close>

lemma split_comma_nonempty: "split_comma s \<noteq> []"
  by (induction s) (auto split: list.splits)

lemma join_comma_Cons: "fs \<noteq> [] \<Longrightarrow> join_comma (f # fs) = f @ 0x2C # join_comma fs"
  by (cases fs) simp_all

lemma join_comma_head: "join_comma ((c # f) # fs) = c # join_comma (f # fs)"
  by (cases fs) simp_all

lemma join_split_comma: "join_comma (split_comma s) = s"
proof (induction s)
  case Nil
  show ?case by simp
next
  case (Cons c s)
  show ?case
  proof (cases "c = 0x2C")
    case True
    then show ?thesis using Cons by (simp add: join_comma_Cons split_comma_nonempty)
  next
    case False
    obtain f fs where "split_comma s = f # fs"
      using split_comma_nonempty by (cases "split_comma s") auto
    then show ?thesis using False Cons by (simp add: join_comma_head)
  qed
qed

lemma split_comma_no_comma: "f \<in> set (split_comma s) \<Longrightarrow> 0x2C \<notin> set f"
  by (induction s arbitrary: f) (auto split: list.splits if_splits)

lemma last_dropWhile: "dropWhile P xs \<noteq> [] \<Longrightarrow> last (dropWhile P xs) = last xs"
  by (induction xs) (auto split: if_splits)

lemma trim_decompose:
  "\<exists>a b. f = a @ trim f @ b \<and> (\<forall>c\<in>set a. isWhiteSpace c) \<and> (\<forall>c\<in>set b. isWhiteSpace c)"
proof -
  define g where "g = dropWhile isWhiteSpace f"
  have 1: "f = takeWhile isWhiteSpace f @ g" by (simp add: g_def)
  have "rev (takeWhile isWhiteSpace (rev g) @ dropWhile isWhiteSpace (rev g)) = g"
    by (simp only: takeWhile_dropWhile_id rev_rev_ident)
  then have "rev (dropWhile isWhiteSpace (rev g)) @ rev (takeWhile isWhiteSpace (rev g)) = g"
    by (simp only: rev_append)
  then have 2: "g = trim f @ rev (takeWhile isWhiteSpace (rev g))"
    by (simp only: trim_def g_def)
  have "f = takeWhile isWhiteSpace f @ trim f @ rev (takeWhile isWhiteSpace (rev g))"
    using 1 2 by simp
  moreover have "\<forall>c\<in>set (takeWhile isWhiteSpace f). isWhiteSpace c"
    by (auto dest: set_takeWhileD)
  moreover have "\<forall>c\<in>set (rev (takeWhile isWhiteSpace (rev g))). isWhiteSpace c"
    by (auto dest: set_takeWhileD)
  ultimately show ?thesis by blast
qed

lemma trim_ends:
  assumes "trim f \<noteq> []"
  shows "\<not> isWhiteSpace (hd (trim f))" "\<not> isWhiteSpace (last (trim f))"
proof -
  define g where "g = dropWhile isWhiteSpace f"
  define h where "h = dropWhile isWhiteSpace (rev g)"
  have t: "trim f = rev h" by (simp add: trim_def g_def h_def)
  with assms have h: "h \<noteq> []" by simp
  then have g: "g \<noteq> []" by (auto simp: h_def)
  have "\<not> isWhiteSpace (hd h)" using h unfolding h_def by (rule hd_dropWhile)
  then show "\<not> isWhiteSpace (last (trim f))" using h by (simp add: t last_rev)
  have "last h = last (rev g)" using h unfolding h_def by (rule last_dropWhile)
  also have "\<dots> = hd g" using g by (simp add: last_rev)
  finally have "hd (trim f) = hd g" using h by (simp add: t hd_rev)
  moreover have "\<not> isWhiteSpace (hd g)" using g unfolding g_def by (rule hd_dropWhile)
  ultimately show "\<not> isWhiteSpace (hd (trim f))" by simp
qed

lemma filter_map_trim:
  "filter (\<lambda>s. s \<noteq> []) (map trim xs) = [trim f. f \<leftarrow> xs, trim f \<noteq> []]"
  by (induction xs) simp_all

text \<open>
  C7. \<^verbatim>\<open>parseCsv\<close> splits at the commas (the fields joined with commas are the input,
  and no field holds a comma), trims each field (a field is its trimmed form between
  two runs of white space) and drops the empty ones: an entry is not empty and neither
  starts nor ends with white space. The list of the example is parsed as stated.
\<close>

theorem parseCsv_fields:
  "parseCsv (lit ''staging, production,,qa'') = [lit ''staging'', lit ''production'', lit ''qa'']
   \<and> join_comma (split_comma input) = input
   \<and> (\<forall>f\<in>set (split_comma input). 0x2C \<notin> set f)
   \<and> (\<forall>f\<in>set (split_comma input).
        \<exists>a b. f = a @ trim f @ b \<and> (\<forall>c\<in>set a. isWhiteSpace c) \<and> (\<forall>c\<in>set b. isWhiteSpace c))
   \<and> parseCsv input = [trim f. f \<leftarrow> split_comma input, trim f \<noteq> []]
   \<and> (\<forall>e\<in>set (parseCsv input).
        e \<noteq> [] \<and> \<not> isWhiteSpace (hd e) \<and> \<not> isWhiteSpace (last e))"
proof (intro conjI ballI)
  show "parseCsv (lit ''staging, production,,qa'') = [lit ''staging'', lit ''production'', lit ''qa'']"
    by (simp add: parseCsv_def lit_def trim_def isWhiteSpace_def)
  show "join_comma (split_comma input) = input"
    by (rule join_split_comma)
  show "0x2C \<notin> set f" if "f \<in> set (split_comma input)" for f
    using that by (rule split_comma_no_comma)
  show "\<exists>a b. f = a @ trim f @ b \<and> (\<forall>c\<in>set a. isWhiteSpace c) \<and> (\<forall>c\<in>set b. isWhiteSpace c)"
    for f
    by (rule trim_decompose)
  show "parseCsv input = [trim f. f \<leftarrow> split_comma input, trim f \<noteq> []]"
    unfolding parseCsv_def by (rule filter_map_trim)
  show "e \<noteq> []" "\<not> isWhiteSpace (hd e)" "\<not> isWhiteSpace (last e)"
    if "e \<in> set (parseCsv input)" for e
    using that trim_ends by (auto simp: parseCsv_def)
qed

theorem parseCsv_fields_witness:
  "lit ''qa'' \<in> set (parseCsv (lit '' qa ,''))
   \<and> lit '' qa '' \<in> set (split_comma (lit '' qa ,''))
   \<and> 0x2C \<notin> set (lit '' qa '')
   \<and> \<not> isWhiteSpace (hd (lit ''qa''))
   \<and> join_comma (split_comma (lit '' qa ,'')) = lit '' qa ,''"
  using parseCsv_fields[of "lit '' qa ,''"]
  by (simp add: parseCsv_def lit_def trim_def isWhiteSpace_def)

section \<open>The run, step by step\<close>

lemma main_config_error:
  "apiKey w = [] \<or> apiUrl w = [] \<Longrightarrow>
   main w = crash [] []
     (Error (if apiKey w = [] then lit ''Missing required input: api_key''
             else lit ''Missing required input: api_url''))"
  using failOn_total[of w] by (auto simp: main_def)

lemma main_after_fetch:
  assumes "apiKey w \<noteq> []" "apiUrl w \<noteq> []" "failOn w = Inr f"
    and "fetch w (compare_request w) = Inr res"
  shows "main w =
    (case read_response w res of
       Inl e \<Rightarrow> crash [] [compare_request w] e
     | Inr json \<Rightarrow>
         (case report (JSON_stringify w) (baseline w) (annotate w) json of
            (ls, Inl e) \<Rightarrow> crash ls [compare_request w] e
          | (ls, Inr g) \<Rightarrow> decide ls [compare_request w] g f))"
  using assms by (simp add: main_def)

lemma report_globalRisk:
  "report st base ann json = (ls, Inr g) \<Longrightarrow>
   json \<noteq> JNull \<and> normalizeRisk (member json (lit ''risk'')) = Inr g"
  by (auto simp: report_def Let_def split: sum.splits prod.splits option.splits if_splits)

lemma rank_ge_levels:
  assumes "g = lit ''high'' \<or> g = lit ''medium'' \<or> g = lit ''low''"
    and "f = lit ''high'' \<or> f = lit ''medium'' \<or> f = lit ''low''"
  shows "\<exists>a b. severityRank g = Some a \<and> severityRank f = Some b
           \<and> rank_ge (severityRank g) (severityRank f) = (b \<le> a)"
  using assms by (auto simp: severityRank_level rank_ge_def)

lemma compared_decide: "compared (decide ls reqs g f) = Some (g, f)"
  by (simp add: decide_def)

lemma compared_crash: "compared (crash ls reqs e) = None"
  by (simp add: crash_def)

lemma exit_code_decide:
  "exit_code (decide ls reqs g f) = (if rank_ge (severityRank g) (severityRank f) then 1 else 0)"
  by (simp add: decide_def)

lemma main_compared:
  assumes "compared (main w) = Some (g, f)"
  shows "failOn w = Inr f
    \<and> (\<exists>res json ls. fetch w (compare_request w) = Inr res \<and> read_response w res = Inr json
          \<and> report (JSON_stringify w) (baseline w) (annotate w) json = (ls, Inr g)
          \<and> main w = decide ls [compare_request w] g f)"
  using assms
  by (auto simp: main_def compared_crash compared_decide
      split: sum.splits if_splits prod.splits)

lemma digits_eval:
  "digits 0 = lit ''0''" "digits 1 = lit ''1''" "digits 2 = lit ''2''"
  by (simp_all add: digits.simps lit_def)

lemma toUpperCase_level:
  "toUpperCase (lit ''high'') = lit ''HIGH''"
  "toUpperCase (lit ''medium'') = lit ''MEDIUM''"
  "toUpperCase (lit ''low'') = lit ''LOW''"
  by (simp_all add: toUpperCase_def upper_unit_def lit_def)

lemma lit_append: "lit (a @ b) = lit a @ lit b"
  by (simp add: lit_def)

lemma read_response_empty:
  "body_text res = [] \<Longrightarrow> ok res \<Longrightarrow> read_response w res = Inr (JObj [])"
  by (simp add: read_response_def)

lemma report_empty:
  "report st base ann (JObj []) =
     ([Log (lit ''CloudMonitor baseline='' @ base @ lit '' risk=LOW pairs=0 issues=0''),
       Log (lit ''Pairs: 0 HIGH / 0 MED / 0 LOW'')],
      Inr (lit ''low''))"
proof -
  have 1: "lit '' risk=LOW pairs=0 issues=0''
      = lit '' risk='' @ lit ''LOW'' @ lit '' pairs='' @ lit ''0'' @ lit '' issues='' @ lit ''0''"
    by (simp add: lit_def)
  have 2: "lit ''Pairs: 0 HIGH / 0 MED / 0 LOW''
      = lit ''Pairs: '' @ lit ''0'' @ lit '' HIGH / '' @ lit ''0'' @ lit '' MED / '' @ lit ''0''
        @ lit '' LOW''"
    by (simp add: lit_def)
  show ?thesis
    unfolding 1 2
    by (simp add: report_def normalizeRisk_None or_default_def Let_def digits_eval
        toUpperCase_level)
qed

lemma main_empty_body:
  assumes "apiKey w \<noteq> []" "apiUrl w \<noteq> []" "failOn w = Inr f"
    and "fetch w (compare_request w) = Inr res" "body_text res = []" "ok res"
  shows "main w =
    decide [Log (lit ''CloudMonitor baseline='' @ baseline w @ lit '' risk=LOW pairs=0 issues=0''),
            Log (lit ''Pairs: 0 HIGH / 0 MED / 0 LOW'')]
      [compare_request w] (lit ''low'') f"
  by (simp add: main_after_fetch[OF assms(1-4)] read_response_empty[OF assms(5,6)] report_empty)

section \<open>The configuration of the concrete runs\<close>

lemma demo_config:
  "apiKey (demo_platform code txt parsed) = lit ''token''"
  "apiUrl (demo_platform code txt parsed) = lit ''https://cloudmonitor.example''"
  "baseline (demo_platform code txt parsed) = lit ''production''"
  "failOn (demo_platform code txt parsed) = Inr (lit ''high'')"
  "annotate (demo_platform code txt parsed) = True"
  "fetch (demo_platform code txt parsed) req = Inr \<lparr>status = code, body_text = txt\<rparr>"
  "JSON_parse (demo_platform code txt parsed) txt = parsed"
  by (simp_all add: apiKey_def apiUrl_def baseline_def failOn_def annotate_def
      demo_platform_def demo_env_def getInput_def strip_slash_def normalizeRisk_JStr
      toUpperCase_def upper_unit_def toLowerCase_def lower_unit_def lit_def)

lemma demo_nonempty:
  "apiKey (demo_platform code txt parsed) \<noteq> []"
  "apiUrl (demo_platform code txt parsed) \<noteq> []"
  by (simp_all add: demo_config lit_def)

lemma bare_config: "apiKey bare_platform = []"
  by (simp add: apiKey_def bare_platform_def getInput_def)

section \<open>Missing configuration\<close>

text \<open>
  C6. When \<^verbatim>\<open>api_key\<close> or \<^verbatim>\<open>api_url\<close> (after the trailing slash is stripped) is the
  empty string, the run writes the error for the missing input, hands no request to
  \<^verbatim>\<open>fetch\<close> and exits with 1.
\<close>

theorem missing_config_no_request:
  assumes "apiKey w = [] \<or> apiUrl w = []"
  shows "main w =
    \<lparr>out = [Trace (Error (if apiKey w = [] then lit ''Missing required input: api_key''
                          else lit ''Missing required input: api_url''))],
     requests = [], compared = None, exit_code = 1\<rparr>"
  using main_config_error[OF assms] by (simp add: crash_def)

theorem missing_config_no_request_witness:
  "apiKey bare_platform = []
   \<and> requests (main bare_platform) = []
   \<and> exit_code (main bare_platform) = 1
   \<and> out (main bare_platform) = [Trace (Error (lit ''Missing required input: api_key''))]"
  using missing_config_no_request[of bare_platform] by (simp add: bare_config)

section \<open>The operands of the comparison\<close>

lemma inferSeverity_level:
  "inferSeverityFromIssue st issue r = Inr sev \<Longrightarrow>
   sev = lit ''high'' \<or> sev = lit ''medium'' \<or> sev = lit ''low''"
  by (auto simp: inferSeverityFromIssue_def Let_def
      split: if_splits sum.splits json.splits dest: normalizeRisk_level)

text \<open>
  C8. When the run reaches the comparison of ranks, its operands are the threshold that
  \<^verbatim>\<open>normalizeRisk\<close> returned for \<^verbatim>\<open>fail_on\<close> and the risk that \<^verbatim>\<open>normalizeRisk\<close> returned
  for the \<open>risk\<close> of the response. Both are one of \<open>low\<close>, \<open>medium\<close>, \<open>high\<close>, both
  have a rank, and the exit code is 1 exactly when the rank of the risk is at least the
  rank of the threshold. The severity of an annotation, compared by
  \<^verbatim>\<open>annotationPrefix\<close>, is one of the three levels as well.
\<close>

theorem compared_normalized:
  assumes "compared (main w) = Some (g, f)"
  shows "failOn w = Inr f
    \<and> (\<exists>res json. fetch w (compare_request w) = Inr res \<and> read_response w res = Inr json
          \<and> normalizeRisk (member json (lit ''risk'')) = Inr g)
    \<and> g \<in> {lit ''low'', lit ''medium'', lit ''high''}
    \<and> f \<in> {lit ''low'', lit ''medium'', lit ''high''}
    \<and> (\<exists>a b. severityRank g = Some a \<and> severityRank f = Some b
          \<and> exit_code (main w) = (if b \<le> a then 1 else 0))
    \<and> (\<forall>st issue r sev. inferSeverityFromIssue st issue r = Inr sev \<longrightarrow>
          sev \<in> {lit ''low'', lit ''medium'', lit ''high''})"
proof -
  from main_compared[OF assms] obtain res :: response and json ls where
    f: "failOn w = Inr f" and
    q: "fetch w (compare_request w) = Inr res" "read_response w res = Inr json" and
    r: "report (JSON_stringify w) (baseline w) (annotate w) json = (ls, Inr g)" and
    m: "main w = decide ls [compare_request w] g f"
    by blast
  from report_globalRisk[OF r] have n: "normalizeRisk (member json (lit ''risk'')) = Inr g"
    by simp
  have g: "g = lit ''high'' \<or> g = lit ''medium'' \<or> g = lit ''low''"
    using n by (rule normalizeRisk_level)
  have f': "f = lit ''high'' \<or> f = lit ''medium'' \<or> f = lit ''low''"
    using f by (rule failOn_level)
  from rank_ge_levels[OF g f'] obtain a b where
    ab: "severityRank g = Some a" "severityRank f = Some b"
      "rank_ge (severityRank g) (severityRank f) = (b \<le> a)"
    by blast
  have "exit_code (main w) = (if b \<le> a then 1 else 0)"
    using ab(3) by (simp add: m exit_code_decide)
  moreover have "sev \<in> {lit ''low'', lit ''medium'', lit ''high''}"
    if "inferSeverityFromIssue st issue r = Inr sev" for st issue r sev
    using that inferSeverity_level by blast
  ultimately show ?thesis using f q n g f' ab(1,2) by blast
qed

theorem compared_normalized_witness:
  "compared (main (demo_platform 200 [] None)) = Some (lit ''low'', lit ''high'')
   \<and> failOn (demo_platform 200 [] None) = Inr (lit ''high'')
   \<and> severityRank (lit ''low'') = Some 1 \<and> severityRank (lit ''high'') = Some 3
   \<and> exit_code (main (demo_platform 200 [] None)) = 0"
proof -
  have c: "compared (main (demo_platform 200 [] None)) = Some (lit ''low'', lit ''high'')"
    by (simp add: main_empty_body[OF demo_nonempty demo_config(4) demo_config(6)] ok_def
        compared_decide)
  from compared_normalized[OF c] show ?thesis
    using c by (auto simp: severityRank_level)
qed

section \<open>An empty body\<close>

lemma decide_low:
  assumes "f = lit ''high'' \<or> f = lit ''medium'' \<or> f = lit ''low''"
  shows "decide ls reqs (lit ''low'') f =
    \<lparr>out = ls @ (if f = lit ''low''
                  then [Err (lit ''CloudMonitor: failing because risk=LOW >= fail_on=LOW'')]
                  else []),
     requests = reqs, compared = Some (lit ''low'', f),
     exit_code = (if f = lit ''low'' then 1 else 0)\<rparr>"
proof -
  have 1: "lit ''CloudMonitor: failing because risk=LOW >= fail_on=LOW''
      = lit ''CloudMonitor: failing because risk='' @ lit ''LOW'' @ lit '' >= fail_on='' @ lit ''LOW''"
    by (simp add: lit_def)
  have 2: "lit ''high'' \<noteq> lit ''low''" "lit ''medium'' \<noteq> lit ''low''"
    by (simp_all add: lit_levels)
  from assms show ?thesis
    unfolding 1
    by (auto simp: decide_def severityRank_level rank_ge_def toUpperCase_level 2)
qed

text \<open>
  C9. With a valid configuration, an empty body and a status of success, \<^verbatim>\<open>JSON.parse\<close>
  is not consulted (the statement holds for every \<^verbatim>\<open>JSON_parse\<close>): the body is read as
  the empty object, the summary reports the risk \<open>LOW\<close>, no pair and no issue, and the
  run exits with 1 exactly when the threshold is \<open>low\<close>, that is when the rank of
  \<open>low\<close> is at least the rank of the threshold.
\<close>

theorem empty_body_run:
  assumes "apiKey w \<noteq> []" "apiUrl w \<noteq> []" "failOn w = Inr f"
    and "fetch w (compare_request w) = Inr res" "body_text res = []" "ok res"
  shows "read_response w res = Inr (JObj [])
    \<and> main w =
      \<lparr>out = [Log (lit ''CloudMonitor baseline='' @ baseline w @ lit '' risk=LOW pairs=0 issues=0''),
              Log (lit ''Pairs: 0 HIGH / 0 MED / 0 LOW'')]
             @ (if f = lit ''low''
                then [Err (lit ''CloudMonitor: failing because risk=LOW >= fail_on=LOW'')]
                else []),
       requests = [compare_request w], compared = Some (lit ''low'', f),
       exit_code = (if f = lit ''low'' then 1 else 0)\<rparr>
    \<and> (f = lit ''low'') = rank_ge (severityRank (lit ''low'')) (severityRank f)"
proof -
  have f: "f = lit ''high'' \<or> f = lit ''medium'' \<or> f = lit ''low''"
    using assms(3) by (rule failOn_level)
  have "lit ''high'' \<noteq> lit ''low''" "lit ''medium'' \<noteq> lit ''low''"
    by (simp_all add: lit_levels)
  with f have "(f = lit ''low'') = rank_ge (severityRank (lit ''low'')) (severityRank f)"
    by (auto simp: severityRank_level rank_ge_def)
  then show ?thesis
    using read_response_empty[OF assms(5,6), of w]
    by (simp add: main_empty_body[OF assms] decide_low[OF f])
qed

theorem empty_body_run_witness:
  "body_text \<lparr>status = 200, body_text = []\<rparr> = []
   \<and> ok \<lparr>status = 200, body_text = []\<rparr>
   \<and> JSON_parse (demo_platform 200 [] None) [] = None
   \<and> exit_code (main (demo_platform 200 [] None)) = 0
   \<and> out (main (demo_platform 200 [] None)) =
       [Log (lit ''CloudMonitor baseline=production risk=LOW pairs=0 issues=0''),
        Log (lit ''Pairs: 0 HIGH / 0 MED / 0 LOW'')]"
  using empty_body_run[OF demo_nonempty demo_config(4) demo_config(6), of 200 "[]" None]
  by (simp add: ok_def demo_config lit_def)

section \<open>A body that does not parse\<close>

lemma read_response_non_json:
  "body_text res \<noteq> [] \<Longrightarrow> JSON_parse w (body_text res) = None \<Longrightarrow>
   read_response w res =
     Inl (Error (lit ''CloudMonitor compare returned non-JSON (status '' @ digits (status res)
                 @ lit ''): '' @ take 200 (body_text res)))"
  by (simp add: read_response_def)

text \<open>
  C4, as the code has it. With a valid configuration and a body that is not empty and
  that \<^verbatim>\<open>JSON.parse\<close> rejects, the run fails whatever the status is: the error names
  the status and carries the first 200 code units of the body, nothing is printed
  before it, and the run exits with 1.
\<close>

theorem non_json_body_fails:
  assumes "apiKey w \<noteq> []" "apiUrl w \<noteq> []"
    and "fetch w (compare_request w) = Inr res"
    and "body_text res \<noteq> []" "JSON_parse w (body_text res) = None"
  shows "main w =
      \<lparr>out = [Trace (Error (lit ''CloudMonitor compare returned non-JSON (status ''
                            @ digits (status res) @ lit ''): '' @ take 200 (body_text res)))],
       requests = [compare_request w], compared = None, exit_code = 1\<rparr>
    \<and> length (take 200 (body_text res)) \<le> 200"
proof -
  obtain f where f: "failOn w = Inr f" using failOn_total by blast
  show ?thesis
    by (simp add: main_after_fetch[OF assms(1,2) f assms(3)]
        read_response_non_json[OF assms(4,5)] crash_def)
qed

theorem non_json_body_fails_witness:
  "body_text \<lparr>status = 500, body_text = lit ''<html>Internal Server Error</html>''\<rparr> \<noteq> []
   \<and> JSON_parse (demo_platform 500 (lit ''<html>Internal Server Error</html>'') None)
        (lit ''<html>Internal Server Error</html>'') = None
   \<and> main (demo_platform 500 (lit ''<html>Internal Server Error</html>'') None) =
      \<lparr>out = [Trace (Error (lit ''CloudMonitor compare returned non-JSON (status 500): <html>Internal Server Error</html>''))],
       requests = [compare_request (demo_platform 500 (lit ''<html>Internal Server Error</html>'') None)],
       compared = None, exit_code = 1\<rparr>"
  using non_json_body_fails[OF demo_nonempty demo_config(6),
      of 500 "lit ''<html>Internal Server Error</html>''" None]
  by (simp add: demo_config digits.simps lit_def)

text \<open>
  The claim fails on an empty body, which \<^verbatim>\<open>JSON.parse\<close> rejects but the program
  never hands to it: with the status 200 the run reports and exits with 0, and with
  the status 500 the error is the one of the status check.
\<close>

theorem empty_body_not_parsed_counterexample:
  "JSON_parse (demo_platform 200 [] None) [] = None
   \<and> exit_code (main (demo_platform 200 [] None)) = 0
   \<and> JSON_parse (demo_platform 500 [] None) [] = None
   \<and> out (main (demo_platform 500 [] None)) =
       [Trace (Error (lit ''CloudMonitor compare failed (status 500)''))]"
proof -
  have 1: "exit_code (main (demo_platform 200 [] None)) = 0"
    by (simp add: main_empty_body[OF demo_nonempty demo_config(4) demo_config(6)] ok_def
        exit_code_decide severityRank_level rank_ge_def)
  have 2: "out (main (demo_platform 500 [] None)) =
       [Trace (Error (lit ''CloudMonitor compare failed (status 500)''))]"
    by (simp add: main_after_fetch[OF demo_nonempty demo_config(4) demo_config(6)]
        read_response_def ok_def is_truthy_def crash_def digits.simps lit_def)
  show ?thesis using 1 2 by (simp add: demo_config)
qed

section \<open>The example of the specification\<close>

lemma digits_Suc: "digits (Suc 0) = lit ''1''" "digits (Suc (Suc 0)) = lit ''2''"
proof -
  have "Suc 0 = 1" "Suc (Suc 0) = 2" by simp_all
  then show "digits (Suc 0) = lit ''1''" "digits (Suc (Suc 0)) = lit ''2''"
    by (simp_all only: digits_eval)
qed

lemma read_response_parsed:
  "body_text res \<noteq> [] \<Longrightarrow> JSON_parse w (body_text res) = Some json \<Longrightarrow> ok res \<Longrightarrow>
   read_response w res = Inr json"
  by (simp add: read_response_def)

lemma decide_high_high:
  "decide ls reqs (lit ''high'') (lit ''high'') =
    \<lparr>out = ls @ [Err (lit ''CloudMonitor: failing because risk=HIGH >= fail_on=HIGH'')],
     requests = reqs, compared = Some (lit ''high'', lit ''high''), exit_code = 1\<rparr>"
proof -
  have 1: "lit ''CloudMonitor: failing because risk=HIGH >= fail_on=HIGH''
      = lit ''CloudMonitor: failing because risk='' @ lit ''HIGH'' @ lit '' >= fail_on='' @ lit ''HIGH''"
    by (simp add: lit_def)
  show ?thesis
    unfolding 1 by (simp add: decide_def severityRank_level rank_ge_def toUpperCase_level)
qed

lemma print_pair_a:
  "print_pair st ann (lit ''a'', JObj [(lit ''risk'', JStr (lit ''low'')), (lit ''issues'', JArr [])])
     = ([], None)"
  by (simp add: print_pair_def issues_of_def normalizeRisk_JStr
      toLowerCase_def lower_unit_def lit_def)

lemma print_pair_b:
  "print_pair st ann
     (lit ''b'', JObj [(lit ''risk'', JStr (lit ''high'')),
                      (lit ''issues'', JArr [JStr (lit ''missing snapshot for production app'')])])
     = (Log (0xA # 0x2716 # lit '' b (HIGH)'')
        # Log (lit ''  - missing snapshot for production app'')
        # (if ann then [Log (lit ''::error::b: missing snapshot for production app'')] else []),
        None)"
  by (cases ann)
    (simp_all add: print_pair_def print_issue_def issues_of_def normalizeRisk_JStr
      issueToMessage_def inferSeverityFromIssue_def icon_def annotationPrefix_def
      toUpperCase_def upper_unit_def toLowerCase_def lower_unit_def lit_def)

lemma count_pairs_example:
  "count_pairs
     [(lit ''a'', JObj [(lit ''risk'', JStr (lit ''low'')), (lit ''issues'', JArr [])]),
      (lit ''b'', JObj [(lit ''risk'', JStr (lit ''high'')),
                       (lit ''issues'', JArr [JStr (lit ''missing snapshot for production app'')])])]
     (\<lparr>high = 0, medium = 0, low = 0\<rparr>, 0)
   = Inr (\<lparr>high = 1, medium = 0, low = 1\<rparr>, 1)"
  by (simp add: count_pair_def issues_of_def normalizeRisk_JStr bump_def
      toLowerCase_def lower_unit_def lit_def)

lemma print_pairs_example:
  "print_pairs st ann
     [(lit ''a'', JObj [(lit ''risk'', JStr (lit ''low'')), (lit ''issues'', JArr [])]),
      (lit ''b'', JObj [(lit ''risk'', JStr (lit ''high'')),
                       (lit ''issues'', JArr [JStr (lit ''missing snapshot for production app'')])])]
   = (Log (0xA # 0x2716 # lit '' b (HIGH)'')
      # Log (lit ''  - missing snapshot for production app'')
      # (if ann then [Log (lit ''::error::b: missing snapshot for production app'')] else []),
      None)"
  by (simp add: print_pair_a print_pair_b)

lemma report_example:
  "report st base ann example_json =
     (Log (lit ''CloudMonitor baseline='' @ base @ lit '' risk=HIGH pairs=2 issues=1'')
      # Log (lit ''Pairs: 1 HIGH / 0 MED / 1 LOW'')
      # Log (0xA # 0x2716 # lit '' b (HIGH)'')
      # Log (lit ''  - missing snapshot for production app'')
      # (if ann then [Log (lit ''::error::b: missing snapshot for production app'')] else []),
      Inr (lit ''high''))"
proof -
  have 1: "lit '' risk=HIGH pairs=2 issues=1''
      = lit '' risk='' @ lit ''HIGH'' @ lit '' pairs='' @ lit ''2'' @ lit '' issues='' @ lit ''1''"
    by (simp add: lit_def)
  have 2: "lit ''Pairs: 1 HIGH / 0 MED / 1 LOW''
      = lit ''Pairs: '' @ lit ''1'' @ lit '' HIGH / '' @ lit ''0'' @ lit '' MED / '' @ lit ''1''
        @ lit '' LOW''"
    by (simp add: lit_def)
  have risk: "member example_json (lit ''risk'') = Some (JStr (lit ''high''))"
    by (simp add: example_json_def lit_def)
  have entries: "Object_entries (or_default (member example_json (lit ''pairs'')) (JObj [])) =
     [(lit ''a'', JObj [(lit ''risk'', JStr (lit ''low'')), (lit ''issues'', JArr [])]),
      (lit ''b'', JObj [(lit ''risk'', JStr (lit ''high'')),
                       (lit ''issues'', JArr [JStr (lit ''missing snapshot for production app'')])])]"
    by (simp add: example_json_def or_default_def lit_def)
  have nn: "example_json \<noteq> JNull" by (simp add: example_json_def)
  show ?thesis
    unfolding report_def 1 2
    by (simp add: nn risk entries normalizeRisk_of_level count_pairs_example
        print_pairs_example digits_eval digits_Suc toUpperCase_level Let_def
        del: count_pairs.simps print_pairs.simps)
qed

text \<open>
  C5. With a valid configuration, the threshold \<open>high\<close>, a status of success and a body
  that \<^verbatim>\<open>JSON.parse\<close> reads as the example, the run writes the summary with
  \<open>risk=HIGH pairs=2 issues=1\<close>, a detail block for \<open>b\<close> alone, whose header carries the
  icon U+2716, and exits with 1; pair \<open>a\<close> prints nothing.
\<close>

theorem example_response_run:
  assumes "apiKey w \<noteq> []" "apiUrl w \<noteq> []" "failOn w = Inr (lit ''high'')"
    and "fetch w (compare_request w) = Inr res" "ok res"
    and "body_text res \<noteq> []" "JSON_parse w (body_text res) = Some example_json"
  shows "main w =
      \<lparr>out = [Log (lit ''CloudMonitor baseline='' @ baseline w @ lit '' risk=HIGH pairs=2 issues=1''),
              Log (lit ''Pairs: 1 HIGH / 0 MED / 1 LOW''),
              Log (0xA # 0x2716 # lit '' b (HIGH)''),
              Log (lit ''  - missing snapshot for production app'')]
             @ (if annotate w
                then [Log (lit ''::error::b: missing snapshot for production app'')] else [])
             @ [Err (lit ''CloudMonitor: failing because risk=HIGH >= fail_on=HIGH'')],
       requests = [compare_request w], compared = Some (lit ''high'', lit ''high''),
       exit_code = 1\<rparr>
    \<and> print_pair (JSON_stringify w) (annotate w)
        (lit ''a'', JObj [(lit ''risk'', JStr (lit ''low'')), (lit ''issues'', JArr [])]) = ([], None)
    \<and> icon (lit ''high'') = [0x2716]"
  by (simp add: main_after_fetch[OF assms(1-4)] read_response_parsed[OF assms(6,7,5)]
      report_example decide_high_high print_pair_a icon_def)

theorem example_response_run_witness:
  "ok \<lparr>status = 200, body_text = example_text\<rparr>
   \<and> example_text \<noteq> []
   \<and> JSON_parse (demo_platform 200 example_text (Some example_json)) example_text
       = Some example_json
   \<and> exit_code (main (demo_platform 200 example_text (Some example_json))) = 1
   \<and> out (main (demo_platform 200 example_text (Some example_json))) =
       [Log (lit ''CloudMonitor baseline=production risk=HIGH pairs=2 issues=1''),
        Log (lit ''Pairs: 1 HIGH / 0 MED / 1 LOW''),
        Log (0xA # 0x2716 # lit '' b (HIGH)''),
        Log (lit ''  - missing snapshot for production app''),
        Log (lit ''::error::b: missing snapshot for production app''),
        Err (lit ''CloudMonitor: failing because risk=HIGH >= fail_on=HIGH'')]"
proof -
  have t: "example_text \<noteq> []" by (simp add: example_text_def lit_def)
  have k: "ok \<lparr>status = 200, body_text = example_text\<rparr>" by (simp add: ok_def)
  note d = demo_nonempty[of 200 example_text "Some example_json"]
    demo_config(4,6)[of 200 example_text "Some example_json"]
  from example_response_run[OF d k] t k
  show ?thesis by (simp add: demo_config lit_def)
qed

section \<open>A message that is a number\<close>

text \<open>
  When the report is written without an exception, the exit code is the outcome of the
  comparison of ranks.
\<close>

lemma main_reported:
  assumes "apiKey w \<noteq> []" "apiUrl w \<noteq> []" "failOn w = Inr f"
    and "fetch w (compare_request w) = Inr res" "read_response w res = Inr json"
    and "report (JSON_stringify w) (baseline w) (annotate w) json = (ls, Inr g)"
  shows "main w = decide ls [compare_request w] g f"
    and "exit_code (main w) = (if rank_ge (severityRank g) (severityRank f) then 1 else 0)"
  by (simp_all add: main_after_fetch[OF assms(1-4)] assms(5,6) exit_code_decide)


lemma report_numeric_message:
  "report st base True numeric_message_json =
     ([Log (lit ''CloudMonitor baseline='' @ base @ lit '' risk=LOW pairs=1 issues=1''),
       Log (lit ''Pairs: 0 HIGH / 0 MED / 1 LOW''),
       Log (0xA # 0x2714 # lit '' a (LOW)''),
       Log (lit ''  - 5'')],
      Inl TypeError)"
proof -
  have 1: "lit '' risk=LOW pairs=1 issues=1''
      = lit '' risk='' @ lit ''LOW'' @ lit '' pairs='' @ lit ''1'' @ lit '' issues='' @ lit ''1''"
    by (simp add: lit_def)
  have 2: "lit ''Pairs: 0 HIGH / 0 MED / 1 LOW''
      = lit ''Pairs: '' @ lit ''0'' @ lit '' HIGH / '' @ lit ''0'' @ lit '' MED / '' @ lit ''1''
        @ lit '' LOW''"
    by (simp add: lit_def)
  have risk: "member numeric_message_json (lit ''risk'') = Some (JStr (lit ''low''))"
    by (simp add: numeric_message_json_def lit_def)
  have entries: "Object_entries (or_default (member numeric_message_json (lit ''pairs'')) (JObj [])) =
     [(lit ''a'', JObj [(lit ''risk'', JStr (lit ''low'')),
                       (lit ''issues'', JArr [JObj [(lit ''message'', JNum 5)]])])]"
    by (simp add: numeric_message_json_def or_default_def lit_def)
  have nn: "numeric_message_json \<noteq> JNull" by (simp add: numeric_message_json_def)
  have cnt: "count_pairs
     [(lit ''a'', JObj [(lit ''risk'', JStr (lit ''low'')),
                       (lit ''issues'', JArr [JObj [(lit ''message'', JNum 5)]])])]
     (\<lparr>high = 0, medium = 0, low = 0\<rparr>, 0)
     = Inr (\<lparr>high = 0, medium = 0, low = 1\<rparr>, 1)"
    by (simp add: count_pair_def issues_of_def normalizeRisk_JStr bump_def
        toLowerCase_def lower_unit_def lit_def)
  have pr: "print_pairs st True
     [(lit ''a'', JObj [(lit ''risk'', JStr (lit ''low'')),
                       (lit ''issues'', JArr [JObj [(lit ''message'', JNum 5)]])])]
     = ([Log (0xA # 0x2714 # lit '' a (LOW)''), Log (lit ''  - 5'')], Some TypeError)"
    by (simp add: print_pair_def print_issue_def issues_of_def normalizeRisk_JStr
        issueToMessage_def inferSeverityFromIssue_def icon_def or_default_def is_truthy_def
        show_int_def digits.simps
        toUpperCase_def upper_unit_def toLowerCase_def lower_unit_def lit_def)
  show ?thesis
    unfolding report_def 1 2
    by (simp add: nn risk entries normalizeRisk_of_level cnt pr digits_eval digits_Suc toUpperCase_level
        Let_def del: count_pairs.simps print_pairs.simps)
qed

text \<open>
  C1, at a response of risk \<open>low\<close> whose issue has the number 5 as its message, with
  the default threshold \<open>high\<close> and annotations on. The body parses, the status is 200,
  the rank of \<open>low\<close> is below the rank of \<open>high\<close>; \<^verbatim>\<open>inferSeverityFromIssue\<close> calls
  \<^verbatim>\<open>toLowerCase\<close> on the number, the \<^verbatim>\<open>TypeError\<close> reaches the handler and the run
  exits with 1, without comparing the ranks.
\<close>

theorem numeric_message_run:
  "JSON_parse (demo_platform 200 numeric_message_text (Some numeric_message_json))
      numeric_message_text = Some numeric_message_json
   \<and> ok \<lparr>status = 200, body_text = numeric_message_text\<rparr>
   \<and> normalizeRisk (member numeric_message_json (lit ''risk'')) = Inr (lit ''low'')
   \<and> failOn (demo_platform 200 numeric_message_text (Some numeric_message_json))
       = Inr (lit ''high'')
   \<and> \<not> rank_ge (severityRank (lit ''low'')) (severityRank (lit ''high''))
   \<and> main (demo_platform 200 numeric_message_text (Some numeric_message_json)) =
      \<lparr>out = [Log (lit ''CloudMonitor baseline=production risk=LOW pairs=1 issues=1''),
              Log (lit ''Pairs: 0 HIGH / 0 MED / 1 LOW''),
              Log (0xA # 0x2714 # lit '' a (LOW)''),
              Log (lit ''  - 5''),
              Trace TypeError],
       requests = [compare_request
                     (demo_platform 200 numeric_message_text (Some numeric_message_json))],
       compared = None, exit_code = 1\<rparr>"
proof -
  let ?w = "demo_platform 200 numeric_message_text (Some numeric_message_json)"
  have t: "numeric_message_text \<noteq> []" by (simp add: numeric_message_text_def lit_def)
  have k: "ok \<lparr>status = 200, body_text = numeric_message_text\<rparr>" by (simp add: ok_def)
  have r: "read_response ?w \<lparr>status = 200, body_text = numeric_message_text\<rparr>
      = Inr numeric_message_json"
    by (rule read_response_parsed) (simp_all add: t k demo_config)
  have risk: "normalizeRisk (member numeric_message_json (lit ''risk'')) = Inr (lit ''low'')"
    by (simp add: numeric_message_json_def normalizeRisk_JStr toLowerCase_def lower_unit_def
        lit_def)
  have s: "JSON_stringify ?w = (\<lambda>v. lit ''{}'')" by (simp add: demo_platform_def)
  have m: "main ?w =
      crash [Log (lit ''CloudMonitor baseline='' @ lit ''production'' @ lit '' risk=LOW pairs=1 issues=1''),
             Log (lit ''Pairs: 0 HIGH / 0 MED / 1 LOW''),
             Log (0xA # 0x2714 # lit '' a (LOW)''),
             Log (lit ''  - 5'')]
        [compare_request ?w] TypeError"
    by (simp add: main_after_fetch[OF demo_nonempty demo_config(4) demo_config(6)] r
        demo_config report_numeric_message)
  have l: "lit ''CloudMonitor baseline='' @ lit ''production'' @ lit '' risk=LOW pairs=1 issues=1''
      = lit ''CloudMonitor baseline=production risk=LOW pairs=1 issues=1''"
    by (simp add: lit_def)
  show ?thesis
    using k risk by (simp add: m l crash_def demo_config severityRank_level rank_ge_def)
qed

section \<open>A pair without a list of issues\<close>


lemma bump_level:
  "r = lit ''high'' \<or> r = lit ''medium'' \<or> r = lit ''low'' \<Longrightarrow>
   high (bump r c) + medium (bump r c) + low (bump r c) = high c + medium c + low c + 1"
  by (auto simp: bump_def)



lemma normalizeRisk_scalar:
  assumes "\<forall>xs. v \<noteq> Some (JArr xs)" "\<forall>kvs. v \<noteq> Some (JObj kvs)"
  shows "\<exists>r. normalizeRisk v = Inr r"
proof (cases v)
  case None
  then show ?thesis by (simp add: normalizeRisk_None)
next
  case (Some u)
  with assms show ?thesis
    by (cases u) (simp_all add: normalizeRisk_def or_default_def Let_def)
qed










section \<open>The severity inferred for an issue\<close>

lemma annotationPrefix_level:
  "annotationPrefix (lit ''high'') = lit ''::error::''"
  "annotationPrefix (lit ''medium'') = lit ''::warning::''"
  "annotationPrefix (lit ''low'') = lit ''::notice::''"
  by (simp_all add: annotationPrefix_def lit_levels)

lemma inferSeverity_given:
  "is_object issue \<Longrightarrow> member issue (lit ''severity'') = Some v \<Longrightarrow> truthy v \<Longrightarrow>
   inferSeverityFromIssue st issue r = normalizeRisk (Some v)"
  by (simp add: inferSeverityFromIssue_def is_truthy_def)

lemma inferSeverity_inferred:
  "\<not> (is_object issue \<and> is_truthy (member issue (lit ''severity''))) \<Longrightarrow>
   issueToMessage st issue = Inr (JStr m) \<Longrightarrow>
   inferSeverityFromIssue st issue r =
     (if str_includes (toLowerCase m) (lit ''missing snapshot for production'')
         \<or> str_includes (toLowerCase m) (lit ''app_debug'') then Inr (lit ''high'')
      else if str_includes (toLowerCase m) (lit ''missing env key'')
         \<or> str_includes (toLowerCase m) (lit ''mismatch'') then Inr (lit ''medium'')
      else normalizeRisk (Some (JStr r)))"
  by (auto simp: inferSeverityFromIssue_def Let_def)

section \<open>Responses of the documented shape\<close>

lemma normalizeRisk_string_or_absent:
  "string_or_absent v \<Longrightarrow> \<exists>r. normalizeRisk v = Inr r"
  by (rule normalizeRisk_scalar) (auto simp: string_or_absent_def split: option.splits json.splits)

lemma string_or_absent_cases:
  "string_or_absent a \<Longrightarrow> a = None \<or> (\<exists>s. a = Some (JStr s))"
  by (cases a) (auto simp: string_or_absent_def split: json.splits)

lemma or_default_string:
  assumes "string_or_absent a" "\<exists>m. d = JStr m"
  shows "\<exists>m. or_default a d = JStr m"
  using string_or_absent_cases[OF assms(1)] assms(2) by (auto simp: or_default_def)

lemma issueToMessage_shaped:
  assumes "issue_shaped issue"
  shows "\<exists>m. issueToMessage st issue = Inr (JStr m)"
proof (cases issue)
  case (JObj kvs)
  with assms have a: "string_or_absent (member issue (lit ''message''))"
    "string_or_absent (member issue (lit ''title''))"
    by (simp_all add: issue_shaped_def)
  have "\<exists>m. or_default (member issue (lit ''title'')) (JStr (st issue)) = JStr m"
    using a(2) by (rule or_default_string) simp
  with a(1) have "\<exists>m. or_default (member issue (lit ''message''))
      (or_default (member issue (lit ''title'')) (JStr (st issue))) = JStr m"
    by (rule or_default_string)
  then show ?thesis using JObj by (simp add: issueToMessage_def)
qed (use assms in \<open>simp_all add: issue_shaped_def issueToMessage_def\<close>)

lemma inferSeverity_shaped:
  assumes "issue_shaped issue"
  shows "\<exists>sev. inferSeverityFromIssue st issue r = Inr sev"
proof (cases "is_object issue \<and> is_truthy (member issue (lit ''severity''))")
  case True
  then have "string_or_absent (member issue (lit ''severity''))"
    using assms by (auto simp: issue_shaped_def split: json.splits)
  from normalizeRisk_string_or_absent[OF this] True show ?thesis
    by (simp add: inferSeverityFromIssue_def)
next
  case False
  obtain m where m: "issueToMessage st issue = Inr (JStr m)"
    using issueToMessage_shaped[OF assms] by blast
  obtain x where "normalizeRisk (Some (JStr r)) = Inr x"
    by (simp add: normalizeRisk_JStr)
  then show ?thesis
    by (simp add: inferSeverity_inferred[OF False m])
qed

lemma print_issue_shaped:
  assumes "issue_shaped issue"
  shows "snd (print_issue st ann name r issue) = None"
proof -
  obtain m where m: "issueToMessage st issue = Inr (JStr m)"
    using issueToMessage_shaped[OF assms] by blast
  obtain sev where "inferSeverityFromIssue st issue r = Inr sev"
    using inferSeverity_shaped[OF assms] by blast
  then show ?thesis by (simp add: print_issue_def m)
qed

lemma print_issues_shaped:
  "list_all issue_shaped issues \<Longrightarrow> snd (print_issues st ann name r issues) = None"
proof (induction issues)
  case Nil
  show ?case by simp
next
  case (Cons issue rest)
  then have "snd (print_issue st ann name r issue) = None"
    and "snd (print_issues st ann name r rest) = None"
    by (simp_all add: print_issue_shaped)
  then show ?case by (auto split: prod.splits option.splits)
qed

lemma pair_shaped_parts:
  assumes "pair_shaped data"
  shows "\<exists>r. normalizeRisk (member data (lit ''risk'')) = Inr r"
    and "list_all issue_shaped (issues_of data)"
proof -
  from assms obtain kvs where d: "data = JObj kvs"
    by (auto simp: pair_shaped_def split: json.splits)
  with assms have "string_or_absent (member data (lit ''risk''))"
    by (simp add: pair_shaped_def)
  then show "\<exists>r. normalizeRisk (member data (lit ''risk'')) = Inr r"
    by (rule normalizeRisk_string_or_absent)
  show "list_all issue_shaped (issues_of data)"
    using assms d by (auto simp: pair_shaped_def issues_of_def split: option.splits json.splits)
qed

lemma print_pair_shaped:
  assumes "pair_shaped (snd entry)"
  shows "snd (print_pair st ann entry) = None"
proof -
  obtain r where r: "normalizeRisk (member (snd entry) (lit ''risk'')) = Inr r"
    using pair_shaped_parts(1)[OF assms] by blast
  obtain ls x where p: "print_issues st ann (fst entry) r (issues_of (snd entry)) = (ls, x)"
    by (cases "print_issues st ann (fst entry) r (issues_of (snd entry))")
  have "snd (print_issues st ann (fst entry) r (issues_of (snd entry))) = None"
    using pair_shaped_parts(2)[OF assms] by (rule print_issues_shaped)
  with p have "x = None" by simp
  then show ?thesis
    by (simp add: print_pair_def r Let_def p)
qed

lemma print_pairs_shaped:
  "list_all (\<lambda>entry. pair_shaped (snd entry)) entries \<Longrightarrow>
   snd (print_pairs st ann entries) = None"
proof (induction entries)
  case Nil
  show ?case by simp
next
  case (Cons entry rest)
  then have "snd (print_pair st ann entry) = None" and "snd (print_pairs st ann rest) = None"
    by (simp_all add: print_pair_shaped)
  then show ?case by (auto split: prod.splits option.splits)
qed

lemma count_pairs_shaped:
  "list_all (\<lambda>entry. pair_shaped (snd entry)) entries \<Longrightarrow>
   \<exists>acc'. count_pairs entries acc = Inr acc'"
proof (induction entries arbitrary: acc)
  case Nil
  show ?case by simp
next
  case (Cons entry rest)
  then obtain r where "normalizeRisk (member (snd entry) (lit ''risk'')) = Inr r"
    using pair_shaped_parts(1)[of "snd entry"] by auto
  then show ?case using Cons by (simp add: count_pair_def)
qed

text \<open>
  On a response of the documented shape the report is written without an exception,
  so that the exit code is the outcome of the comparison of ranks.
\<close>

lemma report_shaped:
  assumes "response_shaped json"
  shows "\<exists>ls g. report st base ann json = (ls, Inr g)"
proof -
  from assms obtain kvs where j: "json = JObj kvs"
    by (auto simp: response_shaped_def split: json.splits)
  with assms have "string_or_absent (member json (lit ''risk''))"
    by (simp add: response_shaped_def)
  then obtain g where g: "normalizeRisk (member json (lit ''risk'')) = Inr g"
    using normalizeRisk_string_or_absent by blast
  define entries where
    "entries = Object_entries (or_default (member json (lit ''pairs'')) (JObj []))"
  have e: "list_all (\<lambda>entry. pair_shaped (snd entry)) entries"
    using assms j
    by (auto simp: entries_def response_shaped_def or_default_def
        split: option.splits json.splits)
  obtain cnt total where c:
    "count_pairs entries (\<lparr>high = 0, medium = 0, low = 0\<rparr>, 0) = Inr (cnt, total)"
    using count_pairs_shaped[OF e] by (metis surj_pair)
  obtain ls x where p: "print_pairs st ann entries = (ls, x)"
    by (cases "print_pairs st ann entries")
  have "snd (print_pairs st ann entries) = None"
    using e by (rule print_pairs_shaped)
  with p have x: "x = None" by simp
  have nn: "json \<noteq> JNull" using j by simp
  show ?thesis
    unfolding report_def Let_def entries_def[symmetric]
    by (simp add: nn g c p x)
qed

lemma main_shaped:
  assumes "apiKey w \<noteq> []" "apiUrl w \<noteq> []" "failOn w = Inr f"
    and "fetch w (compare_request w) = Inr res" "read_response w res = Inr json"
    and "response_shaped json"
  shows "\<exists>g. normalizeRisk (member json (lit ''risk'')) = Inr g
    \<and> exit_code (main w) = (if rank_ge (severityRank g) (severityRank f) then 1 else 0)"
proof -
  obtain ls g where r: "report (JSON_stringify w) (baseline w) (annotate w) json = (ls, Inr g)"
    using report_shaped[OF assms(6)] by blast
  from report_globalRisk[OF r] main_reported(2)[OF assms(1-5) r] show ?thesis by blast
qed

section \<open>The severity of an annotation\<close>

lemma print_issues_append:
  "print_issues st ann name r (xs @ ys) =
     (case print_issues st ann name r xs of
        (ls, Some e) \<Rightarrow> (ls, Some e)
      | (ls, None) \<Rightarrow> (case print_issues st ann name r ys of (ls', x) \<Rightarrow> (ls @ ls', x)))"
  by (induction xs) (auto split: prod.splits option.splits)

lemma print_issue_written:
  "print_issue st True name r issue = (ls, None) \<Longrightarrow>
   \<exists>msg m sev. issueToMessage st issue = Inr msg \<and> ToString msg = Inr m
     \<and> inferSeverityFromIssue st issue r = Inr sev
     \<and> ls = [Log (lit ''  - '' @ m), Log (annotationPrefix sev @ name @ lit '': '' @ m)]"
  by (auto simp: print_issue_def split: sum.splits)

lemma print_issue_with:
  "issueToMessage st issue = Inr msg \<Longrightarrow> ToString msg = Inr m \<Longrightarrow>
   inferSeverityFromIssue st issue r = Inr sev \<Longrightarrow>
   print_issue st True name r issue =
     ([Log (lit ''  - '' @ m), Log (annotationPrefix sev @ name @ lit '': '' @ m)], None)"
  by (simp add: print_issue_def)

lemma inferSeverity_keyword:
  assumes "\<not> (is_object issue \<and> is_truthy (member issue (lit ''severity'')))"
    and "issueToMessage st issue = Inr (JStr m)"
    and "r \<in> {lit ''low'', lit ''medium'', lit ''high''}"
  shows "inferSeverityFromIssue st issue r =
    Inr (case keyword_severity m of Some k \<Rightarrow> k | None \<Rightarrow> r)"
proof -
  have "normalizeRisk (Some (JStr r)) = Inr r"
    using assms(3) by (intro normalizeRisk_of_level) auto
  then show ?thesis
    by (simp add: inferSeverity_inferred[OF assms(1,2)] keyword_severity_def)
qed

lemma inferSeverity_not_given:
  assumes "\<not> (is_object issue \<and> is_truthy (member issue (lit ''severity'')))"
    and "inferSeverityFromIssue st issue r = Inr sev"
  shows "\<exists>m. issueToMessage st issue = Inr (JStr m)"
  using assms
  by (auto simp: inferSeverityFromIssue_def Let_def split: sum.splits json.splits if_splits)

text \<open>
  C3, as the code has it. Whenever the annotation line of an issue is written, it
  carries the prefix of a severity that is: the issue's own \<open>severity\<close> normalized by
  \<^verbatim>\<open>normalizeRisk\<close>, if the issue is an object and the field is truthy; otherwise, the
  message being a string, the level of the first keyword in it; otherwise the risk of
  the pair, a level already. A truthy severity decides whatever the message says: a
  string that is \<open>high\<close> or \<open>medium\<close> up to case gives that level and any other
  non-empty string gives \<open>low\<close>, so that the severity \<open>low\<close> is annotated with
  \<^verbatim>\<open>::notice::\<close>. The line is written for every issue that is a string or an object
  whose \<open>severity\<close>, \<open>message\<close> and \<open>title\<close>, when present, are strings. In the block
  of a pair the lines of an issue are written with the normalized risk of that pair,
  after the header and the lines of the issues before it.
\<close>

theorem annotation_severity:
  assumes "r \<in> {lit ''low'', lit ''medium'', lit ''high''}"
  shows "(\<forall>ls. print_issue st True name r issue = (ls, None) \<longrightarrow>
      (\<exists>msg m sev.
          issueToMessage st issue = Inr msg \<and> ToString msg = Inr m
          \<and> ls = [Log (lit ''  - '' @ m), Log (annotationPrefix sev @ name @ lit '': '' @ m)]
          \<and> sev \<in> {lit ''low'', lit ''medium'', lit ''high''}
          \<and> (if is_object issue \<and> is_truthy (member issue (lit ''severity''))
              then normalizeRisk (member issue (lit ''severity'')) = Inr sev
              else msg = JStr m
                   \<and> sev = (case keyword_severity m of Some k \<Rightarrow> k | None \<Rightarrow> r))))
    \<and> (\<forall>v sev msg m.
          is_object issue \<and> member issue (lit ''severity'') = Some v \<and> truthy v
          \<and> normalizeRisk (Some v) = Inr sev
          \<and> issueToMessage st issue = Inr msg \<and> ToString msg = Inr m \<longrightarrow>
          print_issue st True name r issue =
            ([Log (lit ''  - '' @ m), Log (annotationPrefix sev @ name @ lit '': '' @ m)], None))
    \<and> (\<forall>s msg m.
          is_object issue \<and> member issue (lit ''severity'') = Some (JStr s) \<and> s \<noteq> []
          \<and> issueToMessage st issue = Inr msg \<and> ToString msg = Inr m \<longrightarrow>
          print_issue st True name r issue =
            ([Log (lit ''  - '' @ m),
              Log (annotationPrefix
                     (if ci_equal s (lit ''high'') then lit ''high''
                      else if ci_equal s (lit ''medium'') then lit ''medium''
                      else lit ''low'')
                   @ name @ lit '': '' @ m)], None))
    \<and> (\<forall>s msg m.
          is_object issue \<and> member issue (lit ''severity'') = Some (JStr s)
          \<and> ci_equal s (lit ''low'')
          \<and> issueToMessage st issue = Inr msg \<and> ToString msg = Inr m \<longrightarrow>
          print_issue st True name r issue =
            ([Log (lit ''  - '' @ m), Log (lit ''::notice::'' @ name @ lit '': '' @ m)], None))
    \<and> (\<forall>m. \<not> (is_object issue \<and> is_truthy (member issue (lit ''severity'')))
          \<and> issueToMessage st issue = Inr (JStr m) \<longrightarrow>
          print_issue st True name r issue =
            ([Log (lit ''  - '' @ m),
              Log (annotationPrefix (case keyword_severity m of Some k \<Rightarrow> k | None \<Rightarrow> r)
                   @ name @ lit '': '' @ m)], None))
    \<and> (issue_shaped issue \<longrightarrow> (\<exists>ls. print_issue st True name r issue = (ls, None)))
    \<and> (\<forall>ls data before rest.
          normalizeRisk (member data (lit ''risk'')) = Inr r
          \<and> issues_of data = before @ issue # rest
          \<and> snd (print_issues st True name r before) = None
          \<and> print_issue st True name r issue = (ls, None) \<longrightarrow>
          (\<exists>ls' x. print_pair st True (name, data) =
             (Log (0xA # icon r @ lit '' '' @ name @ lit '' ('' @ toUpperCase r @ lit '')'')
              # fst (print_issues st True name r before) @ ls @ ls', x)))
    \<and> annotationPrefix (lit ''high'') = lit ''::error::''
    \<and> annotationPrefix (lit ''medium'') = lit ''::warning::''
    \<and> annotationPrefix (lit ''low'') = lit ''::notice::''"
proof (intro conjI allI impI)
  fix ls assume w: "print_issue st True name r issue = (ls, None)"
  from print_issue_written[OF w] obtain msg m sev where
    p: "issueToMessage st issue = Inr msg" "ToString msg = Inr m"
      "inferSeverityFromIssue st issue r = Inr sev"
      "ls = [Log (lit ''  - '' @ m), Log (annotationPrefix sev @ name @ lit '': '' @ m)]"
    by blast
  have l: "sev \<in> {lit ''low'', lit ''medium'', lit ''high''}"
    using inferSeverity_level[OF p(3)] by auto
  have "if is_object issue \<and> is_truthy (member issue (lit ''severity''))
      then normalizeRisk (member issue (lit ''severity'')) = Inr sev
      else msg = JStr m \<and> sev = (case keyword_severity m of Some k \<Rightarrow> k | None \<Rightarrow> r)"
  proof (cases "is_object issue \<and> is_truthy (member issue (lit ''severity''))")
    case True
    then show ?thesis using p(3) by (simp add: inferSeverityFromIssue_def)
  next
    case False
    from inferSeverity_not_given[OF False p(3)] obtain m' where
      m': "issueToMessage st issue = Inr (JStr m')" by blast
    with p(1,2) have "msg = JStr m" by auto
    moreover have "sev = (case keyword_severity m of Some k \<Rightarrow> k | None \<Rightarrow> r)"
      using inferSeverity_keyword[OF False _ assms, of st m] p(1,3) \<open>msg = JStr m\<close> by simp
    ultimately show ?thesis using False by auto
  qed
  with p(1,2,4) l
  show "\<exists>msg m sev.
          issueToMessage st issue = Inr msg \<and> ToString msg = Inr m
          \<and> ls = [Log (lit ''  - '' @ m), Log (annotationPrefix sev @ name @ lit '': '' @ m)]
          \<and> sev \<in> {lit ''low'', lit ''medium'', lit ''high''}
          \<and> (if is_object issue \<and> is_truthy (member issue (lit ''severity''))
              then normalizeRisk (member issue (lit ''severity'')) = Inr sev
              else msg = JStr m
                   \<and> sev = (case keyword_severity m of Some k \<Rightarrow> k | None \<Rightarrow> r))"
    by blast
next
  fix v sev msg m
  assume a: "is_object issue \<and> member issue (lit ''severity'') = Some v \<and> truthy v
          \<and> normalizeRisk (Some v) = Inr sev
          \<and> issueToMessage st issue = Inr msg \<and> ToString msg = Inr m"
  then have "inferSeverityFromIssue st issue r = Inr sev"
    using inferSeverity_given[of issue v st r] by simp
  with a show "print_issue st True name r issue =
      ([Log (lit ''  - '' @ m), Log (annotationPrefix sev @ name @ lit '': '' @ m)], None)"
    using print_issue_with[of st issue msg m r sev name] by blast
next
  fix s msg m
  assume a: "is_object issue \<and> member issue (lit ''severity'') = Some (JStr s) \<and> s \<noteq> []
          \<and> issueToMessage st issue = Inr msg \<and> ToString msg = Inr m"
  then have "inferSeverityFromIssue st issue r = normalizeRisk (Some (JStr s))"
    using inferSeverity_given[of issue "JStr s" st r] by simp
  also have "\<dots> = Inr (if ci_equal s (lit ''high'') then lit ''high''
                      else if ci_equal s (lit ''medium'') then lit ''medium''
                      else lit ''low'')"
    by (simp add: normalizeRisk_JStr toLowerCase_high toLowerCase_medium toLowerCase_low)
  finally have "inferSeverityFromIssue st issue r =
      Inr (if ci_equal s (lit ''high'') then lit ''high''
           else if ci_equal s (lit ''medium'') then lit ''medium''
           else lit ''low'')" .
  with a show "print_issue st True name r issue =
            ([Log (lit ''  - '' @ m),
              Log (annotationPrefix
                     (if ci_equal s (lit ''high'') then lit ''high''
                      else if ci_equal s (lit ''medium'') then lit ''medium''
                      else lit ''low'')
                   @ name @ lit '': '' @ m)], None)"
    using print_issue_with[of st issue msg m r _ name] by blast
next
  fix s msg m
  assume a: "is_object issue \<and> member issue (lit ''severity'') = Some (JStr s)
          \<and> ci_equal s (lit ''low'')
          \<and> issueToMessage st issue = Inr msg \<and> ToString msg = Inr m"
  then have "s \<noteq> []" by (auto simp: ci_equal_def lit_low)
  then have "inferSeverityFromIssue st issue r = normalizeRisk (Some (JStr s))"
    using a inferSeverity_given[of issue "JStr s" st r] by simp
  also have "\<dots> = Inr (lit ''low'')"
    using a by (simp add: normalizeRisk_JStr toLowerCase_low[symmetric])
  finally have "inferSeverityFromIssue st issue r = Inr (lit ''low'')" .
  with a have "print_issue st True name r issue =
      ([Log (lit ''  - '' @ m), Log (annotationPrefix (lit ''low'') @ name @ lit '': '' @ m)], None)"
    using print_issue_with[of st issue msg m r _ name] by blast
  then show "print_issue st True name r issue =
      ([Log (lit ''  - '' @ m), Log (lit ''::notice::'' @ name @ lit '': '' @ m)], None)"
    by (simp add: annotationPrefix_level)
next
  fix m
  assume a: "\<not> (is_object issue \<and> is_truthy (member issue (lit ''severity'')))
          \<and> issueToMessage st issue = Inr (JStr m)"
  then have "inferSeverityFromIssue st issue r =
      Inr (case keyword_severity m of Some k \<Rightarrow> k | None \<Rightarrow> r)"
    using inferSeverity_keyword[of issue st m r] assms by blast
  with a show "print_issue st True name r issue =
            ([Log (lit ''  - '' @ m),
              Log (annotationPrefix (case keyword_severity m of Some k \<Rightarrow> k | None \<Rightarrow> r)
                   @ name @ lit '': '' @ m)], None)"
    using print_issue_with[of st issue "JStr m" m r _ name] by simp
next
  assume "issue_shaped issue"
  then have "snd (print_issue st True name r issue) = None"
    by (rule print_issue_shaped)
  then show "\<exists>ls. print_issue st True name r issue = (ls, None)"
    by (cases "print_issue st True name r issue") simp
next
  fix ls data before rest
  assume a: "normalizeRisk (member data (lit ''risk'')) = Inr r
          \<and> issues_of data = before @ issue # rest
          \<and> snd (print_issues st True name r before) = None
          \<and> print_issue st True name r issue = (ls, None)"
  obtain ls' x where r: "print_issues st True name r rest = (ls', x)"
    by (cases "print_issues st True name r rest")
  obtain ls0 where b: "print_issues st True name r before = (ls0, None)"
    using a by (cases "print_issues st True name r before") simp
  have "print_issues st True name r (before @ issue # rest) = (ls0 @ ls @ ls', x)"
    using a by (simp add: print_issues_append b r)
  with a have "print_pair st True (name, data) =
      (Log (0xA # icon r @ lit '' '' @ name @ lit '' ('' @ toUpperCase r @ lit '')'')
       # fst (print_issues st True name r before) @ ls @ ls', x)"
    by (simp add: print_pair_def b)
  then show "\<exists>ls' x. print_pair st True (name, data) =
      (Log (0xA # icon r @ lit '' '' @ name @ lit '' ('' @ toUpperCase r @ lit '')'')
       # fst (print_issues st True name r before) @ ls @ ls', x)"
    by blast
qed (rule annotationPrefix_level)+

theorem annotation_severity_witness:
  "lit ''high'' \<in> {lit ''low'', lit ''medium'', lit ''high''}
   \<and> is_object low_issue \<and> issue_shaped low_issue
   \<and> member low_issue (lit ''severity'') = Some (JStr (lit ''low''))
   \<and> ci_equal (lit ''low'') (lit ''low'')
   \<and> issueToMessage (\<lambda>v. []) low_issue = Inr (JStr (lit ''APP_DEBUG is enabled''))
   \<and> keyword_severity (lit ''APP_DEBUG is enabled'') = Some (lit ''high'')
   \<and> print_issue (\<lambda>v. []) True (lit ''b'') (lit ''high'') low_issue =
       ([Log (lit ''  - APP_DEBUG is enabled''), Log (lit ''::notice::b: APP_DEBUG is enabled'')],
        None)
   \<and> \<not> (is_object env_key_issue \<and> is_truthy (member env_key_issue (lit ''severity'')))
   \<and> issueToMessage (\<lambda>v. []) env_key_issue = Inr (JStr (lit ''missing env key X''))
   \<and> keyword_severity (lit ''missing env key X'') = Some (lit ''medium'')
   \<and> print_issue (\<lambda>v. []) True (lit ''a'') (lit ''low'') env_key_issue =
       ([Log (lit ''  - missing env key X''), Log (lit ''::warning::a: missing env key X'')],
        None)
   \<and> member array_severity_issue (lit ''severity'') = Some (JArr [JStr (lit ''HIGH'')])
   \<and> normalizeRisk (Some (JArr [JStr (lit ''HIGH'')])) = Inr (lit ''high'')
   \<and> print_issue (\<lambda>v. []) True (lit ''a'') (lit ''low'') array_severity_issue =
       ([Log (lit ''  - x''), Log (lit ''::error::a: x'')], None)"
proof -
  have r: "lit ''high'' \<in> {lit ''low'', lit ''medium'', lit ''high''}"
    "lit ''low'' \<in> {lit ''low'', lit ''medium'', lit ''high''}"
    by simp_all
  have 1: "is_object low_issue" "issue_shaped low_issue"
    "member low_issue (lit ''severity'') = Some (JStr (lit ''low''))"
    "issueToMessage (\<lambda>v. []) low_issue = Inr (JStr (lit ''APP_DEBUG is enabled''))"
    by (simp_all add: low_issue_def issue_shaped_def string_or_absent_def issueToMessage_def
        or_default_def lit_def)
  have 2: "ci_equal (lit ''low'') (lit ''low'')"
    by (simp add: ci_equal_def lit_def)
  have 3: "\<not> (is_object env_key_issue \<and> is_truthy (member env_key_issue (lit ''severity'')))"
    "issueToMessage (\<lambda>v. []) env_key_issue = Inr (JStr (lit ''missing env key X''))"
    by (simp_all add: env_key_issue_def issueToMessage_def or_default_def is_truthy_def lit_def)
  have 4: "keyword_severity (lit ''APP_DEBUG is enabled'') = Some (lit ''high'')"
    "keyword_severity (lit ''missing env key X'') = Some (lit ''medium'')"
    by (simp_all add: keyword_severity_def toLowerCase_def lower_unit_def lit_def)
  have 5: "is_object array_severity_issue"
    "member array_severity_issue (lit ''severity'') = Some (JArr [JStr (lit ''HIGH'')])"
    "issueToMessage (\<lambda>v. []) array_severity_issue = Inr (JStr (lit ''x''))"
    "normalizeRisk (Some (JArr [JStr (lit ''HIGH'')])) = Inr (lit ''high'')"
    by (simp_all add: array_severity_issue_def issueToMessage_def or_default_def
        normalizeRisk_def Let_def toLowerCase_def lower_unit_def lit_def)
  have 6: "lit ''  - '' @ lit ''APP_DEBUG is enabled'' = lit ''  - APP_DEBUG is enabled''"
    "lit ''::notice::'' @ lit ''b'' @ lit '': '' @ lit ''APP_DEBUG is enabled''
       = lit ''::notice::b: APP_DEBUG is enabled''"
    "lit ''  - '' @ lit ''missing env key X'' = lit ''  - missing env key X''"
    "lit ''::warning::'' @ lit ''a'' @ lit '': '' @ lit ''missing env key X''
       = lit ''::warning::a: missing env key X''"
    "lit ''  - '' @ lit ''x'' = lit ''  - x''"
    "lit ''::error::'' @ lit ''a'' @ lit '': '' @ lit ''x'' = lit ''::error::a: x''"
    by (simp_all add: lit_def)
  have t: "ToString (JStr (lit ''APP_DEBUG is enabled'')) = Inr (lit ''APP_DEBUG is enabled'')"
    "ToString (JStr (lit ''x'')) = Inr (lit ''x'')" "truthy (JArr [JStr (lit ''HIGH'')])"
    by simp_all
  note low = annotation_severity[OF r(1), of "\<lambda>v. []" "lit ''b''" low_issue,
      THEN conjunct2, THEN conjunct2, THEN conjunct2, THEN conjunct1, rule_format,
      of "lit ''low''" "JStr (lit ''APP_DEBUG is enabled'')" "lit ''APP_DEBUG is enabled''"]
  have a: "print_issue (\<lambda>v. []) True (lit ''b'') (lit ''high'') low_issue =
       ([Log (lit ''  - APP_DEBUG is enabled''), Log (lit ''::notice::b: APP_DEBUG is enabled'')],
        None)"
    using low 1 2 t(1) by (simp only: 6 simp_thms)
  note key = annotation_severity[OF r(2), of "\<lambda>v. []" "lit ''a''" env_key_issue,
      THEN conjunct2, THEN conjunct2, THEN conjunct2, THEN conjunct2, THEN conjunct1,
      rule_format, of "lit ''missing env key X''"]
  have b: "print_issue (\<lambda>v. []) True (lit ''a'') (lit ''low'') env_key_issue =
       ([Log (lit ''  - missing env key X''), Log (lit ''::warning::a: missing env key X'')],
        None)"
    using key 3 by (simp only: 4 6 annotationPrefix_level option.case simp_thms)
  note arr = annotation_severity[OF r(2), of "\<lambda>v. []" "lit ''a''" array_severity_issue,
      THEN conjunct2, THEN conjunct1, rule_format,
      of "JArr [JStr (lit ''HIGH'')]" "lit ''high''" "JStr (lit ''x'')" "lit ''x''"]
  have c: "print_issue (\<lambda>v. []) True (lit ''a'') (lit ''low'') array_severity_issue =
       ([Log (lit ''  - x''), Log (lit ''::error::a: x'')], None)"
    using arr 5 t(2,3) by (simp only: 6 annotationPrefix_level simp_thms)
  show ?thesis using r(1) 1 2 3 4 5(2,4) a b c by (simp only: simp_thms)
qed

text \<open>
  The claim fails on a severity that is present and is no risk level: the field
  \<open>critical\<close> is normalized to \<open>low\<close> although the message holds the keyword
  \<open>app_debug\<close> and the pair has the risk \<open>high\<close>.
\<close>

theorem invalid_severity_counterexample:
  "member critical_issue (lit ''severity'') = Some (JStr (lit ''critical''))
   \<and> toLowerCase (lit ''critical'') \<notin> {lit ''low'', lit ''medium'', lit ''high''}
   \<and> issueToMessage (\<lambda>v. []) critical_issue = Inr (JStr (lit ''APP_DEBUG is enabled''))
   \<and> str_includes (toLowerCase (lit ''APP_DEBUG is enabled'')) (lit ''app_debug'')
   \<and> inferSeverityFromIssue (\<lambda>v. []) critical_issue (lit ''high'') = Inr (lit ''low'')
   \<and> lit ''low'' \<noteq> lit ''high''
   \<and> print_issue (\<lambda>v. []) True (lit ''b'') (lit ''high'') critical_issue =
       ([Log (lit ''  - APP_DEBUG is enabled''), Log (lit ''::notice::b: APP_DEBUG is enabled'')],
        None)"
  by (simp add: critical_issue_def issueToMessage_def inferSeverityFromIssue_def
      print_issue_def annotationPrefix_def normalizeRisk_JStr or_default_def is_truthy_def
      toLowerCase_def lower_unit_def lit_def)

end
